theory Spec2Isabelle
  imports Complex_Main
begin

section \<open>Conventions of the embedding\<close>

text \<open>
  The TypeScript sources are embedded function by function, keeping their names.

  \<^bold>\<open>Numbers.\<close>  JavaScript numbers that carry measurements (stamina, momentum, rates,
  thresholds) are idealised as \<^typ>\<open>real\<close>: rounding and overflow of IEEE doubles are
  outside the model.  A quotient by zero is \<open>NaN\<close> or an infinity in the code and has no
  real value: a definition either writes that case out or says that it leaves it out,
  and the statements about the values the code stores are made for a positive capacity.
  Clock readings (\<open>Date.now()\<close>) are inputs of type \<^typ>\<open>int\<close> (milliseconds), and the
  dates that messages carry are valid dates.

  \<^bold>\<open>Strings.\<close>  A string whose characters the code reads (message contents, model
  output, reply texts, the bot name, error messages) is a list of UTF-16 code units, as
  in JavaScript: \<open>length\<close>, \<open>substring\<close>, \<open>trim\<close> and the regular expressions count and
  classify code units.  A string that the code only copies, joins, tests for emptiness
  or compares for equality (keys, identifiers, names, prompts) is opaque and is a HOL
  \<^typ>\<open>string\<close>.

  \<^bold>\<open>Platform.\<close>  \<open>String.prototype.toLowerCase\<close> and \<open>JSON.parse\<close> belong to the platform.
  A function that calls one of them takes it as a parameter (\<open>toLowerCase\<close>, \<open>jp\<close>), and
  the theorems hold for every value of the parameter.  Where a concrete input is
  evaluated, the parameters are the case mapping of the ASCII letters, which is what
  \<open>toLowerCase\<close> does on a string of ASCII characters, and a recursive-descent parser of
  the JSON grammar.

  \<^bold>\<open>Effects.\<close>  Logging and event emission have no effect on the state and are left out.
  An asynchronous function is embedded by its synchronous segments: one function for
  the run up to the first \<open>await\<close>, one for each resumption; what happens in between is
  not fixed, so a resumption is a function of the state it finds.
\<close>

section \<open>Stamina controller (StaminaManager, inertia model)\<close>

record StaminaConfig =
  maxStamina :: real
  replyStaminaCost :: real
  regenRate :: real
  regenInterval :: real
  lowStaminaThreshold :: real
  criticalStaminaThreshold :: real
  restMode :: bool
  cfg_k :: real
  cfg_p :: real
  alpha :: real
  beta :: real
  gamma :: real

record StaminaManager =
  config :: StaminaConfig
  currentStamina :: real
  momentum :: real
  lastUpdateTime :: int
  lastReplyTime :: int
  lastNetRecovery :: real

datatype StaminaLevel = High | Medium | Low | Critical

text \<open>
  \<open>Math.pow\<close> on the arguments the manager passes: the intensity is \<open>0\<close> (background
  tick) or a message count, so the base is never negative.  \<open>Math.pow(x, 0)\<close> is \<open>1\<close>
  for every \<open>x\<close>, \<open>Math.pow(0, y)\<close> is \<open>0\<close> for positive \<open>y\<close>.  For a negative exponent
  \<open>Math.pow(0, y)\<close> is \<open>Infinity\<close>, which the model leaves out.
\<close>

definition Math_pow :: "real \<Rightarrow> real \<Rightarrow> real" where
  "Math_pow x y = (if y = 0 then 1 else if x = 0 then 0 else x powr y)"

text \<open>The constructor: full stamina, no momentum.\<close>

definition newStaminaManager :: "StaminaConfig \<Rightarrow> int \<Rightarrow> StaminaManager" where
  "newStaminaManager c now =
     \<lparr> config = c, currentStamina = maxStamina c, momentum = 0,
       lastUpdateTime = now, lastReplyTime = now, lastNetRecovery = 0 \<rparr>"

text \<open>\<open>update(intensity, dt)\<close>: the core step.  Consumption is subtracted from
  \<open>currentStamina\<close> before the recovery term reads it.  The quotient
  \<open>currentStamina / maxStamina\<close> is the code's for \<open>maxStamina \<noteq> 0\<close>; for
  \<open>maxStamina = 0\<close> the code stores \<open>NaN\<close>, which the model leaves out.\<close>

definition update :: "real \<Rightarrow> real \<Rightarrow> StaminaManager \<Rightarrow> StaminaManager" where
  "update intensity dt s =
     (let c = config s in
      if restMode c then
        s\<lparr> momentum := max 0 (momentum s * (1 - beta c * dt)) \<rparr>
      else
        let m1 = momentum s * (1 - beta c * dt) + alpha c * intensity * dt;
            m2 = max 0 m1;
            consume = cfg_k c * Math_pow intensity (cfg_p c) * dt;
            s1 = currentStamina s - consume;
            recoveryRaw = regenRate c * (1 - s1 / maxStamina c);
            recoveryPenalty = gamma c * m2;
            netRecovery = (recoveryRaw - recoveryPenalty) * dt;
            s2 = s1 + netRecovery
        in s\<lparr> currentStamina := max 0 (min s2 (maxStamina c)),
               momentum := m2,
               lastNetRecovery := netRecovery \<rparr>)"

text \<open>\<open>calculateLevel(stamina)\<close>.  For \<open>maxStamina = 0\<close> the percentage of the code is
  \<open>Infinity\<close> for a positive stamina, which passes the first comparison, and \<open>NaN\<close> or
  \<open>-Infinity\<close> otherwise, which fail all three.\<close>

definition calculateLevel :: "StaminaManager \<Rightarrow> real \<Rightarrow> StaminaLevel" where
  "calculateLevel s stamina =
     (if maxStamina (config s) = 0 then (if stamina > 0 then High else Critical)
      else
        let percentage = (stamina / maxStamina (config s)) * 100 in
        if percentage \<ge> 70 then High
        else if percentage \<ge> 50 then Medium
        else if percentage \<ge> criticalStaminaThreshold (config s) then Low
        else Critical)"

definition canReply :: "StaminaManager \<Rightarrow> bool" where
  "canReply s =
     (if restMode (config s) then False
      else currentStamina s \<ge> cfg_k (config s) * Math_pow 1 (cfg_p (config s)))"

text \<open>\<open>consumeStamina(messageCount)\<close>, with the clock reading as an argument.\<close>

definition consumeStamina :: "real \<Rightarrow> int \<Rightarrow> StaminaManager \<Rightarrow> bool \<times> StaminaManager" where
  "consumeStamina messageCount now s =
     (if restMode (config s) then (False, s)
      else
        let dt = real_of_int (now - lastUpdateTime s) / 1000;
            s1 = s\<lparr> lastUpdateTime := now \<rparr>;
            s2 = (if dt > 1 / 1000 then update 0 dt s1 else s1);
            s3 = update messageCount 1 s2
        in (True, s3\<lparr> lastReplyTime := now \<rparr>))"

text \<open>The body of the \<open>setInterval\<close> callback installed by \<open>startContinuousUpdate\<close>.\<close>

definition backgroundTick :: "int \<Rightarrow> StaminaManager \<Rightarrow> StaminaManager" where
  "backgroundTick now s =
     (let dt = real_of_int (now - lastUpdateTime s) / 1000
      in update 0 dt (s\<lparr> lastUpdateTime := now \<rparr>))"

definition setRestMode :: "bool \<Rightarrow> StaminaManager \<Rightarrow> StaminaManager" where
  "setRestMode enabled s = s\<lparr> config := (config s)\<lparr> restMode := enabled \<rparr> \<rparr>"

definition setStamina :: "real \<Rightarrow> StaminaManager \<Rightarrow> StaminaManager" where
  "setStamina v s = s\<lparr> currentStamina := max 0 (min (maxStamina (config s)) v) \<rparr>"

text \<open>The part of \<open>getStatus()\<close> that callers branch on.\<close>

record StaminaStatus =
  level :: StaminaLevel
  status_canReply :: bool
  isRecovering :: bool
  status_restMode :: bool

definition getStatus :: "StaminaManager \<Rightarrow> StaminaStatus" where
  "getStatus s =
     \<lparr> level = calculateLevel s (currentStamina s),
       status_canReply = canReply s,
       isRecovering = (lastNetRecovery s > 0),
       status_restMode = restMode (config s) \<rparr>"

text \<open>The configuration of a deployment that sets no \<open>STAMINA_*\<close> variable: the values
  come from \<open>config.stamina\<close> (capacity 100, regeneration rate 5, interval 60000 ms,
  thresholds 30 and 10) and from the model parameters of the constructor.\<close>

definition defaultStaminaConfig :: StaminaConfig where
  "defaultStaminaConfig =
     \<lparr> maxStamina = 100, replyStaminaCost = 10, regenRate = 5,
       regenInterval = 60000, lowStaminaThreshold = 30, criticalStaminaThreshold = 10,
       restMode = False, cfg_k = 1, cfg_p = 1, alpha = 1 / 2, beta = 1 / 10,
       gamma = 4 / 10 \<rparr>"

text \<open>The invariant of the data model: \<open>current \<in> [0, S_max]\<close> and \<open>momentum \<ge> 0\<close>.\<close>

definition stamina_inv :: "StaminaManager \<Rightarrow> bool" where
  "stamina_inv s \<longleftrightarrow>
     0 \<le> currentStamina s \<and> currentStamina s \<le> maxStamina (config s) \<and> 0 \<le> momentum s"

text \<open>
  The update step as the specification words it, for comparison with \<^const>\<open>update\<close>:
  the four assignments in order, where \<open>current\<close> in the recovery term is the stamina
  value from before this step's consumption.
\<close>

definition spec_update :: "real \<Rightarrow> real \<Rightarrow> StaminaManager \<Rightarrow> StaminaManager" where
  "spec_update intensity dt s =
     (let c = config s;
          m = max 0 (momentum s * (1 - beta c * dt) + alpha c * intensity * dt);
          consume = cfg_k c * Math_pow intensity (cfg_p c) * dt;
          recover = (regenRate c * (1 - currentStamina s / maxStamina c) - gamma c * m) * dt
      in s\<lparr> currentStamina := max 0 (min (currentStamina s - consume + recover) (maxStamina c)),
             momentum := m \<rparr>)"

section \<open>JavaScript strings and maps\<close>

text \<open>A string of UTF-16 code units, and the code units of a literal of ASCII
  characters.\<close>

type_synonym jsstring = "nat list"

definition str :: "string \<Rightarrow> jsstring" where
  "str s = map of_char s"

text \<open>\<open>String.prototype.startsWith\<close> and \<open>includes\<close>.\<close>

fun startsWith :: "'a list \<Rightarrow> 'a list \<Rightarrow> bool" where
  "startsWith s [] = True"
| "startsWith [] (c # cs) = False"
| "startsWith (x # xs) (c # cs) = (x = c \<and> startsWith xs cs)"

fun includesStr :: "'a list \<Rightarrow> 'a list \<Rightarrow> bool" where
  "includesStr [] n = (n = [])"
| "includesStr (x # xs) n = (startsWith (x # xs) n \<or> includesStr xs n)"

text \<open>The case mapping of the ASCII letters.  It is what a regular expression with
  the flag \<open>i\<close> does to the letters of an ASCII pattern, and what \<open>toLowerCase\<close> does to a
  string of ASCII characters.\<close>

definition asciiLowerUnit :: "nat \<Rightarrow> nat" where
  "asciiLowerUnit c = (if 65 \<le> c \<and> c \<le> 90 then c + 32 else c)"

definition asciiToLowerCase :: "jsstring \<Rightarrow> jsstring" where
  "asciiToLowerCase s = map asciiLowerUnit s"

text \<open>White space of \<open>trim()\<close> and of the regular-expression class \<open>\s\<close>: the
  \<open>WhiteSpace\<close> and \<open>LineTerminator\<close> code points of ECMAScript, all of them single code
  units.  They are tab, line feed, vertical tab, form feed, carriage return, space,
  U+00A0, U+1680, U+2000 to U+200A, U+2028, U+2029, U+202F, U+205F, U+3000 and U+FEFF.\<close>

definition isWhiteSpace :: "nat \<Rightarrow> bool" where
  "isWhiteSpace c =
     ((9 \<le> c \<and> c \<le> 13) \<or> c = 32 \<or> c = 160 \<or> c = 5760 \<or> (8192 \<le> c \<and> c \<le> 8202) \<or>
      c = 8232 \<or> c = 8233 \<or> c = 8239 \<or> c = 8287 \<or> c = 12288 \<or> c = 65279)"

definition trimEnd :: "jsstring \<Rightarrow> jsstring" where
  "trimEnd s = rev (dropWhile isWhiteSpace (rev s))"

definition trim :: "jsstring \<Rightarrow> jsstring" where
  "trim s = trimEnd (dropWhile isWhiteSpace s)"

text \<open>A JavaScript \<open>Map\<close> keeps its keys in insertion order; \<open>set\<close> on a present key
  replaces the value in place.\<close>

fun Map_set :: "'k \<Rightarrow> 'v \<Rightarrow> ('k \<times> 'v) list \<Rightarrow> ('k \<times> 'v) list" where
  "Map_set k v [] = [(k, v)]"
| "Map_set k v ((k', v') # r) = (if k' = k then (k, v) # r else (k', v') # Map_set k v r)"

definition Map_get :: "('k \<times> 'v) list \<Rightarrow> 'k \<Rightarrow> 'v option" where
  "Map_get m k = map_of m k"

fun Map_delete :: "'k \<Rightarrow> ('k \<times> 'v) list \<Rightarrow> ('k \<times> 'v) list" where
  "Map_delete k [] = []"
| "Map_delete k ((k', v) # r) = (if k' = k then r else (k', v) # Map_delete k r)"

section \<open>Credential pool (ApiKeyManager)\<close>

record ApiKeyStatus =
  isBlocked :: bool
  errorCount :: nat
  lastErrorTime :: int
  blockStartTime :: "int option"

record ApiKeyManager =
  apiKeys :: "string list"
  keyStatus :: "(string \<times> ApiKeyStatus) list"
  currentKeyIndex :: nat

text \<open>What the code reads of a thrown error: \<open>status\<close>, \<open>code\<close> and \<open>message\<close>, each
  possibly absent; \<open>None\<close> is a falsy error value.\<close>

record ApiError =
  err_status :: "int option"
  err_code :: "int option"
  err_message :: "jsstring option"

definition MAX_ERRORS_IN_WINDOW :: nat where
  "MAX_ERRORS_IN_WINDOW = 5"

definition ERROR_WINDOW_MS :: int where
  "ERROR_WINDOW_MS = 5 * 60 * 1000"

definition BLOCK_DURATION_MS :: int where
  "BLOCK_DURATION_MS = 60 * 60 * 1000"

datatype ConfigError = NoApiKeyConfigured

definition freshStatus :: ApiKeyStatus where
  "freshStatus = \<lparr> isBlocked = False, errorCount = 0, lastErrorTime = 0, blockStartTime = None \<rparr>"

definition initializeKeys :: "string list \<Rightarrow> ConfigError + ApiKeyManager" where
  "initializeKeys keys =
     (if keys = [] then Inl NoApiKeyConfigured
      else Inr \<lparr> apiKeys = keys,
                 keyStatus = fold (\<lambda>k m. Map_set k freshStatus m) keys [],
                 currentKeyIndex = 0 \<rparr>)"

text \<open>\<open>status.blockStartTime\<close> used as a condition: \<open>null\<close> and \<open>0\<close> are falsy.\<close>

definition truthyTime :: "int option \<Rightarrow> bool" where
  "truthyTime t = (case t of None \<Rightarrow> False | Some v \<Rightarrow> v \<noteq> 0)"

definition cleanStatus :: "int \<Rightarrow> ApiKeyStatus \<Rightarrow> ApiKeyStatus" where
  "cleanStatus now st =
     (if isBlocked st \<and> truthyTime (blockStartTime st) then
        (if now - the (blockStartTime st) > BLOCK_DURATION_MS
         then st\<lparr> isBlocked := False, blockStartTime := None, errorCount := 0 \<rparr>
         else st)
      else st)"

definition cleanExpiredBlocks :: "int \<Rightarrow> ApiKeyManager \<Rightarrow> ApiKeyManager" where
  "cleanExpiredBlocks now s =
     s\<lparr> keyStatus := map (\<lambda>(k, st). (k, cleanStatus now st)) (keyStatus s) \<rparr>"

text \<open>\<open>getEarliestBlockedKey\<close>: the loop keeps the earliest key and its time, \<open>None\<close>
  standing for \<open>null\<close> and for \<open>Infinity\<close>.\<close>

definition earliestStep ::
  "string \<times> ApiKeyStatus \<Rightarrow> string option \<times> int option \<Rightarrow> string option \<times> int option" where
  "earliestStep e acc =
     (let st = snd e in
      if isBlocked st \<and> truthyTime (blockStartTime st) \<and>
         (case snd acc of None \<Rightarrow> True | Some t \<Rightarrow> the (blockStartTime st) < t)
      then (Some (fst e), blockStartTime st)
      else acc)"

definition getEarliestBlockedKey :: "ApiKeyManager \<Rightarrow> string option" where
  "getEarliestBlockedKey s = fst (fold earliestStep (keyStatus s) (None, None))"

definition keyAvailable :: "ApiKeyManager \<Rightarrow> nat \<Rightarrow> bool" where
  "keyAvailable s keyIndex =
     (case Map_get (keyStatus s) (apiKeys s ! keyIndex) of
        None \<Rightarrow> False
      | Some st \<Rightarrow> \<not> isBlocked st)"

text \<open>\<open>getCurrentApiKey()\<close>: the key returned (\<open>None\<close> for \<open>undefined\<close>) and the new state.
  The last expression is \<open>earliestBlockedKey || this.apiKeys[0]\<close>.\<close>

definition getCurrentApiKey :: "int \<Rightarrow> ApiKeyManager \<Rightarrow> string option \<times> ApiKeyManager" where
  "getCurrentApiKey now s0 =
     (let s = cleanExpiredBlocks now s0;
          n = length (apiKeys s)
      in case find (keyAvailable s) (map (\<lambda>i. (currentKeyIndex s + i) mod n) [0..<n]) of
           Some keyIndex \<Rightarrow> (Some (apiKeys s ! keyIndex), s\<lparr> currentKeyIndex := keyIndex \<rparr>)
         | None \<Rightarrow>
             (case getEarliestBlockedKey s of
                Some k \<Rightarrow> (if k \<noteq> [] then (Some k, s)
                           else (case apiKeys s of [] \<Rightarrow> (None, s) | k0 # r \<Rightarrow> (Some k0, s)))
              | None \<Rightarrow> (case apiKeys s of [] \<Rightarrow> (None, s) | k0 # r \<Rightarrow> (Some k0, s))))"

definition getAvailableKeysCount :: "ApiKeyManager \<Rightarrow> nat" where
  "getAvailableKeysCount s = length (filter (\<lambda>(k, st). \<not> isBlocked st) (keyStatus s))"

definition switchToNextKey :: "ApiKeyManager \<Rightarrow> ApiKeyManager" where
  "switchToNextKey s =
     (let n = length (apiKeys s)
      in case find (keyAvailable s) (map (\<lambda>i. (currentKeyIndex s + i) mod n) [1..<n]) of
           Some nextIndex \<Rightarrow> s\<lparr> currentKeyIndex := nextIndex \<rparr>
         | None \<Rightarrow> s)"

text \<open>\<open>blockApiKey\<close> reads the clock itself; the reading is the argument \<open>now\<close>.\<close>

definition blockApiKey :: "string \<Rightarrow> int \<Rightarrow> ApiKeyManager \<Rightarrow> ApiKeyManager" where
  "blockApiKey apiKey now s =
     (case Map_get (keyStatus s) apiKey of
        None \<Rightarrow> s
      | Some st \<Rightarrow>
          (let s1 = s\<lparr> keyStatus :=
                        Map_set apiKey (st\<lparr> isBlocked := True, blockStartTime := Some now \<rparr>)
                          (keyStatus s) \<rparr>
           in if getAvailableKeysCount s1 > 0 then switchToNextKey s1 else s1))"

definition is429Error :: "(jsstring \<Rightarrow> jsstring) \<Rightarrow> ApiError option \<Rightarrow> bool" where
  "is429Error toLowerCase error =
     (case error of
        None \<Rightarrow> False
      | Some e \<Rightarrow>
          err_status e = Some 429 \<or> err_code e = Some 429 \<or>
          (case err_message e of
             None \<Rightarrow> False
           | Some m \<Rightarrow> m \<noteq> [] \<and>
               (includesStr m (str ''429'') \<or>
                includesStr (toLowerCase m) (str ''rate limit'') \<or>
                includesStr (toLowerCase m) (str ''quota exceeded''))))"

text \<open>\<open>recordError(apiKey, error)\<close>.  \<open>now\<close> is the clock reading of \<open>recordError\<close>,
  \<open>nowBlock\<close> the later reading made inside \<open>blockApiKey\<close>.\<close>

definition recordError ::
  "(jsstring \<Rightarrow> jsstring) \<Rightarrow> string \<Rightarrow> ApiError option \<Rightarrow> int \<Rightarrow> int \<Rightarrow> ApiKeyManager
     \<Rightarrow> ApiKeyManager" where
  "recordError toLowerCase apiKey error now nowBlock s =
     (case Map_get (keyStatus s) apiKey of
        None \<Rightarrow> s
      | Some st \<Rightarrow>
          if is429Error toLowerCase error then
            (let st1 = (if now - lastErrorTime st > ERROR_WINDOW_MS
                        then st\<lparr> errorCount := 0 \<rparr> else st);
                 st2 = st1\<lparr> errorCount := errorCount st1 + 1, lastErrorTime := now \<rparr>;
                 s1 = s\<lparr> keyStatus := Map_set apiKey st2 (keyStatus s) \<rparr>
             in if errorCount st2 \<ge> MAX_ERRORS_IN_WINDOW then blockApiKey apiKey nowBlock s1
                else s1)
          else s)"

text \<open>An HTTP 429 error, and the pool of the credential-rotation scenario.\<close>

definition error429 :: "ApiError option" where
  "error429 = Some \<lparr> err_status = Some 429, err_code = None, err_message = None \<rparr>"

definition twoKeys :: ApiKeyManager where
  "twoKeys =
     \<lparr> apiKeys = [''A'', ''B''],
       keyStatus = [(''A'', freshStatus), (''B'', freshStatus)],
       currentKeyIndex = 0 \<rparr>"

text \<open>Well-formed pools: what the constructor establishes and every operation keeps.
  Keys are distinct and non-empty (the configuration trims, filters and deduplicates
  them), the status map has the keys of the list in the same order, a blocked key has
  a positive block time, and a key with five or more counted errors is blocked.\<close>

definition pool_wf :: "ApiKeyManager \<Rightarrow> bool" where
  "pool_wf s \<longleftrightarrow>
     apiKeys s \<noteq> [] \<and> distinct (apiKeys s) \<and> [] \<notin> set (apiKeys s) \<and>
     map fst (keyStatus s) = apiKeys s \<and>
     (\<forall>e \<in> set (keyStatus s).
        (isBlocked (snd e) \<longrightarrow> (\<exists>t. blockStartTime (snd e) = Some t \<and> 0 < t)) \<and>
        (MAX_ERRORS_IN_WINDOW \<le> errorCount (snd e) \<longrightarrow> isBlocked (snd e)))"

definition blockedWithinHour :: "int \<Rightarrow> ApiKeyStatus \<Rightarrow> bool" where
  "blockedWithinHour now st \<longleftrightarrow>
     isBlocked st \<and>
     (case blockStartTime st of None \<Rightarrow> False | Some t \<Rightarrow> now - t \<le> BLOCK_DURATION_MS)"

text \<open>Two pools of the rotation scenario: key A blocked at time 1000; both keys blocked,
  B earlier than A.\<close>

definition poolABlocked :: ApiKeyManager where
  "poolABlocked =
     \<lparr> apiKeys = [''A'', ''B''],
       keyStatus =
         [(''A'', \<lparr> isBlocked = True, errorCount = 5, lastErrorTime = 1000,
                   blockStartTime = Some 1000 \<rparr>),
          (''B'', freshStatus)],
       currentKeyIndex = 1 \<rparr>"

definition poolBothBlocked :: ApiKeyManager where
  "poolBothBlocked =
     \<lparr> apiKeys = [''A'', ''B''],
       keyStatus =
         [(''A'', \<lparr> isBlocked = True, errorCount = 5, lastErrorTime = 3000,
                   blockStartTime = Some 3000 \<rparr>),
          (''B'', \<lparr> isBlocked = True, errorCount = 5, lastErrorTime = 2000,
                   blockStartTime = Some 2000 \<rparr>)],
       currentKeyIndex = 1 \<rparr>"

text \<open>
  The five-minute window that the comments, the log text and the documentation of the
  key manager state (``at most 5 errors within 5 minutes'', ``5-minute sliding
  window''), for comparison with \<^const>\<open>recordError\<close>: the number of rate-limit failures
  among the readings \<open>ts\<close> that lie at most five minutes before \<open>now\<close>.
\<close>

definition errorsInWindow :: "int list \<Rightarrow> int \<Rightarrow> nat" where
  "errorsInWindow ts now =
     length (filter (\<lambda>t. t \<le> now \<and> now - t \<le> ERROR_WINDOW_MS) ts)"

text \<open>
  The failure accounting as the specification words it: a credential carries
  \<open>firstErrorAtInWindow\<close>; on a rate-limit-like failure the window is reset if 5 minutes
  have elapsed since it, then \<open>errorCount\<close> is incremented, and at \<open>errorCount \<ge> 5\<close> the
  credential is blocked with \<open>blockedAt = now\<close>.
\<close>

record SpecCredential =
  spec_errorCount :: nat
  spec_blockedAt :: "int option"
  spec_firstErrorAtInWindow :: "int option"

definition spec_freshCredential :: SpecCredential where
  "spec_freshCredential =
     \<lparr> spec_errorCount = 0, spec_blockedAt = None, spec_firstErrorAtInWindow = None \<rparr>"

definition spec_reportRateLimited :: "int \<Rightarrow> SpecCredential \<Rightarrow> SpecCredential" where
  "spec_reportRateLimited now c =
     (let c1 = (case spec_firstErrorAtInWindow c of
                  None \<Rightarrow> c
                | Some t \<Rightarrow> if now - t \<ge> ERROR_WINDOW_MS
                            then c\<lparr> spec_errorCount := 0, spec_firstErrorAtInWindow := None \<rparr>
                            else c);
          c2 = c1\<lparr> spec_errorCount := spec_errorCount c1 + 1,
                    spec_firstErrorAtInWindow :=
                      (case spec_firstErrorAtInWindow c1 of None \<Rightarrow> Some now | Some t \<Rightarrow> Some t) \<rparr>
      in if spec_errorCount c2 \<ge> MAX_ERRORS_IN_WINDOW then c2\<lparr> spec_blockedAt := Some now \<rparr>
         else c2)"

text \<open>The scenario of five rate-limit failures four minutes apart: the clock readings,
  and the pool after the failures at these readings have been recorded for key A one
  after the other.\<close>

definition spacedErrorTimes :: "int list" where
  "spacedErrorTimes = [1000000, 1240000, 1480000, 1720000, 1960000]"

definition afterSpacedErrors :: ApiKeyManager where
  "afterSpacedErrors =
     fold (\<lambda>t s. recordError asciiToLowerCase ''A'' error429 t t s) spacedErrorTimes twoKeys"

section \<open>Chat responses (core/types.ts)\<close>

datatype ChatTask = ThinkingTask jsstring | ReplyTask "jsstring list"

text \<open>What a tool-call record carries in \<open>arguments\<close> and in \<open>result\<close>.\<close>

record ToolPayload =
  tp_action :: "string option"
  tp_messages :: "jsstring list option"
  tp_reason :: "jsstring option"
  tp_thinking :: "jsstring option"
  tp_userId :: "int option"

record ToolCallInfo =
  tc_name :: string
  tc_arguments :: ToolPayload
  tc_result :: "ToolPayload option"

text \<open>\<open>ChatResponse\<close> without \<open>timestamp\<close> and \<open>tokensUsed\<close>, which are only logged or
  passed along.  Optional fields are options.\<close>

record ChatResponse =
  content :: jsstring
  skipReply :: "bool option"
  thinking :: "jsstring option"
  replies :: "jsstring list option"
  messageIds :: "string list option"
  tasks :: "ChatTask list option"
  toolCalls :: "ToolCallInfo list option"

section \<open>Per-context message queue (MessageQueueManager)\<close>

datatype MessageType = TextMessage | CommandMessage

record Message =
  msg_id :: string
  msg_userId :: string
  msg_userName :: "string option"
  msg_groupId :: "string option"
  msg_conversationId :: "string option"
  msg_content :: jsstring
  msg_timestamp :: int
  msg_type :: MessageType

record QueuedMessage =
  userId :: string
  userName :: "string option"
  groupId :: "string option"
  q_content :: jsstring
  timestamp :: int
  messageId :: string
  isHighPriority :: bool
  contextId :: string
  receivedAt :: int

record QueueConfig =
  botName :: jsstring
  silenceSeconds :: real
  maxQueueSize :: real
  maxQueueAgeSeconds :: real

datatype FlushReason =
    high_priority_trigger
  | silence_trigger
  | max_size_trigger
  | max_age_trigger
  | manual_trigger
  | stamina_insufficient

record QueueMessageLog =
  log_messageId :: string
  log_userId :: string
  log_userName :: "string option"
  log_groupId :: "string option"
  contentPreview :: jsstring
  log_contextId :: string

record QueueProcessResult =
  processed :: bool
  messageCount :: nat
  response :: "ChatResponse option"
  res_error :: "string option"
  reason :: FlushReason
  res_messages :: "QueueMessageLog list"
  res_contextId :: string

text \<open>The field \<open>silenceTimer\<close> holds the handle of a \<open>setTimeout\<close> or \<open>null\<close>; the model
  keeps the delay in milliseconds for the handle.\<close>

record QueueState =
  messages :: "QueuedMessage list"
  silenceTimer :: "real option"
  isProcessing :: bool
  lastFlushTime :: "int option"
  lastFlushReason :: "FlushReason option"

text \<open>
  The map \<open>queues\<close> holds references to \<open>QueueState\<close> objects, and a suspended
  \<open>flushQueue\<close> keeps the reference it read before its \<open>await\<close>, whatever the map holds
  when it resumes.  The objects live in \<open>objects\<close>, by reference; \<open>allocated\<close> is the
  next fresh reference.
\<close>

record MessageQueueManager =
  queueConfig :: QueueConfig
  objects :: "nat \<Rightarrow> QueueState"
  allocated :: nat
  queues :: "(string \<times> nat) list"
  processingContexts :: "string set"
  totalProcessed :: nat
  mgr_lastFlushTime :: "int option"
  mgr_lastFlushReason :: "FlushReason option"

text \<open>A write to fields of the object behind a reference, and \<open>this.queues.get(contextId)\<close>
  read through to the object.\<close>

definition modify ::
  "nat \<Rightarrow> (QueueState \<Rightarrow> QueueState) \<Rightarrow> MessageQueueManager \<Rightarrow> MessageQueueManager" where
  "modify ref f s = s\<lparr> objects := (objects s)(ref := f (objects s ref)) \<rparr>"

definition queueStateOf :: "MessageQueueManager \<Rightarrow> string \<Rightarrow> QueueState option" where
  "queueStateOf s ctx = map_option (objects s) (Map_get (queues s) ctx)"

text \<open>An optional string used as a condition: \<open>undefined\<close> and \<open>''\<close> are falsy.\<close>

definition truthyStr :: "'a list option \<Rightarrow> bool" where
  "truthyStr x = (case x of None \<Rightarrow> False | Some v \<Rightarrow> v \<noteq> [])"

definition isHighPriorityMessage ::
  "(jsstring \<Rightarrow> jsstring) \<Rightarrow> QueueConfig \<Rightarrow> Message \<Rightarrow> bool" where
  "isHighPriorityMessage toLowerCase cfg message =
     (let c = toLowerCase (trim (msg_content message));
          b = toLowerCase (botName cfg)
      in includesStr c (str ''@'' @ b) \<or> includesStr c b \<or> msg_type message = CommandMessage)"

definition getContextId :: "Message \<Rightarrow> string" where
  "getContextId message =
     (if truthyStr (msg_groupId message) then ''group_'' @ the (msg_groupId message)
      else if truthyStr (msg_conversationId message)
           then ''conv_'' @ the (msg_conversationId message)
      else ''private_'' @ msg_userId message)"

definition newQueueState :: QueueState where
  "newQueueState =
     \<lparr> messages = [], silenceTimer = None, isProcessing = False,
       lastFlushTime = None, lastFlushReason = None \<rparr>"

text \<open>\<open>getOrCreateQueue\<close> returns the reference of the context, of a new object if the
  map has none.\<close>

definition getOrCreateQueue :: "string \<Rightarrow> MessageQueueManager \<Rightarrow> nat \<times> MessageQueueManager" where
  "getOrCreateQueue ctx s =
     (case Map_get (queues s) ctx of
        Some state \<Rightarrow> (state, s)
      | None \<Rightarrow>
          (allocated s,
           s\<lparr> objects := (objects s)(allocated s := newQueueState),
              allocated := Suc (allocated s),
              queues := Map_set ctx (allocated s) (queues s) \<rparr>))"

definition convertToQueuedMessage ::
  "(jsstring \<Rightarrow> jsstring) \<Rightarrow> QueueConfig \<Rightarrow> Message \<Rightarrow> string \<Rightarrow> int \<Rightarrow> QueuedMessage" where
  "convertToQueuedMessage toLowerCase cfg message ctx now =
     \<lparr> userId = msg_userId message,
       userName = msg_userName message,
       groupId = msg_groupId message,
       q_content = msg_content message,
       timestamp = msg_timestamp message div 1000,
       messageId = msg_id message,
       isHighPriority = isHighPriorityMessage toLowerCase cfg message,
       contextId = ctx,
       receivedAt = now \<rparr>"

definition truncateContent :: "jsstring \<Rightarrow> jsstring" where
  "truncateContent c = (if length c > 80 then take 80 c @ str ''...'' else c)"

definition createMessageLog :: "QueuedMessage \<Rightarrow> QueueMessageLog" where
  "createMessageLog m =
     \<lparr> log_messageId = messageId m, log_userId = userId m, log_userName = userName m,
       log_groupId = groupId m, contentPreview = truncateContent (q_content m),
       log_contextId = contextId m \<rparr>"

definition createMessageLogs :: "QueuedMessage list \<Rightarrow> QueueMessageLog list" where
  "createMessageLogs ms = map createMessageLog ms"

text \<open>\<open>clearSilenceTimer(contextId, queueState)\<close> with the state given: afterwards the
  field is \<open>null\<close>.\<close>

definition clearSilenceTimer :: "nat \<Rightarrow> MessageQueueManager \<Rightarrow> MessageQueueManager" where
  "clearSilenceTimer queueState s = modify queueState (\<lambda>q. q\<lparr> silenceTimer := None \<rparr>) s"

text \<open>
  \<open>flushQueue\<close> is asynchronous.  Its first segment either returns a result at once,
  or it suspends in \<open>await processMessages(batch, ..)\<close> with the processing flag set,
  the queue drained and the batch handed to the processor; the suspended function keeps
  the reference \<open>queueState\<close>, the reason and the batch.  The stamina manager is the
  process-wide singleton the function reads.
\<close>

datatype FlushStep =
    Returned QueueProcessResult
  | Awaiting nat FlushReason "QueuedMessage list"

definition notProcessed :: "nat \<Rightarrow> FlushReason \<Rightarrow> QueueMessageLog list \<Rightarrow> string \<Rightarrow> QueueProcessResult" where
  "notProcessed n r logs ctx =
     \<lparr> processed = False, messageCount = n, response = None, res_error = None, reason = r,
       res_messages = logs, res_contextId = ctx \<rparr>"

definition flushQueue ::
  "StaminaManager \<Rightarrow> string \<Rightarrow> FlushReason \<Rightarrow> MessageQueueManager
     \<Rightarrow> FlushStep \<times> MessageQueueManager" where
  "flushQueue stamina ctx r s =
     (case Map_get (queues s) ctx of
        None \<Rightarrow> (Returned (notProcessed 0 r [] ctx), s)
      | Some queueState \<Rightarrow>
          let s1 = clearSilenceTimer queueState s in
          if messages (objects s1 queueState) = [] then (Returned (notProcessed 0 r [] ctx), s1)
          else
            let staminaStatus = getStatus stamina in
            if \<not> canReply stamina then
              let s2 = (if level staminaStatus = Critical
                        then modify queueState (\<lambda>q. q\<lparr> messages := [] \<rparr>) s1 else s1)
              in (Returned (notProcessed (length (messages (objects s2 queueState)))
                             stamina_insufficient
                             (createMessageLogs (messages (objects s2 queueState))) ctx),
                  s2)
            else if isProcessing (objects s1 queueState) then
              (Returned (notProcessed (length (messages (objects s1 queueState))) r
                           (createMessageLogs (messages (objects s1 queueState))) ctx),
               s1)
            else
              (Awaiting queueState r (messages (objects s1 queueState)),
               (modify queueState (\<lambda>q. q\<lparr> isProcessing := True, messages := [] \<rparr>) s1)
                 \<lparr> processingContexts := insert ctx (processingContexts s1) \<rparr>))"

text \<open>The result objects of the two paths after the \<open>await\<close>.\<close>

definition processedResult ::
  "QueuedMessage list \<Rightarrow> ChatResponse \<Rightarrow> FlushReason \<Rightarrow> string \<Rightarrow> QueueProcessResult" where
  "processedResult batch resp r ctx =
     \<lparr> processed = True, messageCount = length batch, response = Some resp, res_error = None,
       reason = r, res_messages = createMessageLogs batch, res_contextId = ctx \<rparr>"

definition failedResult ::
  "QueuedMessage list \<Rightarrow> string \<Rightarrow> FlushReason \<Rightarrow> string \<Rightarrow> QueueProcessResult" where
  "failedResult batch err r ctx =
     \<lparr> processed = False, messageCount = length batch, response = None, res_error = Some err,
       reason = r, res_messages = createMessageLogs batch, res_contextId = ctx \<rparr>"

text \<open>
  The resumption of \<open>flushQueue\<close>: the processor has answered with a response (\<open>Inr\<close>) or
  has thrown (\<open>Inl\<close>).  \<open>ctx\<close>, \<open>r\<close>, \<open>queueState\<close> and \<open>batch\<close> are what the suspended function
  kept; \<open>now\<close> is the clock reading of \<open>consumeStamina\<close>, \<open>nowFlush\<close> the one stored as
  \<open>lastFlushTime\<close>.  The \<open>finally\<close> block clears the flag of the kept object and deletes
  the entry of the context when that object has no message and no timer.  It gives the
  result that \<open>flushQueue\<close> returns and that the listener is told.
\<close>

definition flushQueueResumed ::
  "string \<Rightarrow> FlushReason \<Rightarrow> nat \<Rightarrow> QueuedMessage list \<Rightarrow> string + ChatResponse \<Rightarrow> int \<Rightarrow> int
     \<Rightarrow> StaminaManager \<Rightarrow> MessageQueueManager
     \<Rightarrow> QueueProcessResult \<times> StaminaManager \<times> MessageQueueManager" where
  "flushQueueResumed ctx r queueState batch outcome now nowFlush stamina s =
     (let (result, stamina1, s1) =
            (case outcome of
               Inr resp \<Rightarrow>
                 (let t = nowFlush div 1000
                  in (processedResult batch resp r ctx,
                      snd (consumeStamina (real (length batch)) now stamina),
                      (modify queueState
                         (\<lambda>q. q\<lparr> lastFlushTime := Some t, lastFlushReason := Some r \<rparr>) s)
                        \<lparr> mgr_lastFlushTime := Some t, mgr_lastFlushReason := Some r,
                          totalProcessed := totalProcessed s + length batch \<rparr>))
             | Inl err \<Rightarrow> (failedResult batch err r ctx, stamina, s));
          s2 = (modify queueState (\<lambda>q. q\<lparr> isProcessing := False \<rparr>) s1)
                 \<lparr> processingContexts := processingContexts s1 - {ctx} \<rparr>
      in (result, stamina1,
          if messages (objects s2 queueState) = [] \<and> silenceTimer (objects s2 queueState) = None
          then s2\<lparr> queues := Map_delete ctx (queues s2) \<rparr>
          else s2))"

definition resetSilenceTimer :: "nat \<Rightarrow> MessageQueueManager \<Rightarrow> MessageQueueManager" where
  "resetSilenceTimer queueState s =
     (let s1 = clearSilenceTimer queueState s
      in if silenceSeconds (queueConfig s) \<le> 0 then s1
         else modify queueState
                (\<lambda>q. q\<lparr> silenceTimer := Some (silenceSeconds (queueConfig s) * 1000) \<rparr>) s1)"

definition checkAndTriggerFlush ::
  "StaminaManager \<Rightarrow> string \<Rightarrow> nat \<Rightarrow> int \<Rightarrow> MessageQueueManager
     \<Rightarrow> FlushStep option \<times> MessageQueueManager" where
  "checkAndTriggerFlush stamina ctx queueState now s =
     (case messages (objects s queueState) of
        [] \<Rightarrow> (None, s)
      | oldestMessage # rest \<Rightarrow>
          if real (length (messages (objects s queueState))) \<ge> maxQueueSize (queueConfig s) then
            (let (st, s') = flushQueue stamina ctx max_size_trigger s in (Some st, s'))
          else if real_of_int (now - receivedAt oldestMessage) / 1000
                    \<ge> maxQueueAgeSeconds (queueConfig s) then
            (let (st, s') = flushQueue stamina ctx max_age_trigger s in (Some st, s'))
          else (None, s))"

text \<open>\<open>addMessage\<close> up to its first suspension.  \<open>now\<close> is the clock reading of
  \<open>convertToQueuedMessage\<close>, \<open>nowCheck\<close> the later one of \<open>checkAndTriggerFlush\<close>.  When the
  flush it starts suspends, \<open>addMessage\<close> resumes with \<^const>\<open>flushQueueResumed\<close> and
  returns.\<close>

definition addMessage ::
  "(jsstring \<Rightarrow> jsstring) \<Rightarrow> StaminaManager \<Rightarrow> Message \<Rightarrow> int \<Rightarrow> int \<Rightarrow> MessageQueueManager
     \<Rightarrow> FlushStep option \<times> MessageQueueManager" where
  "addMessage toLowerCase stamina message now nowCheck s =
     (let ctx = getContextId message;
          (queueState, s1) = getOrCreateQueue ctx s;
          queuedMessage = convertToQueuedMessage toLowerCase (queueConfig s) message ctx now;
          s2 = modify queueState (\<lambda>q. q\<lparr> messages := messages q @ [queuedMessage] \<rparr>) s1
      in if isHighPriority queuedMessage then
           (let (st, s3) = flushQueue stamina ctx high_priority_trigger s2 in (Some st, s3))
         else checkAndTriggerFlush stamina ctx queueState nowCheck (resetSilenceTimer queueState s2))"

text \<open>\<open>clear()\<close>: the timers are cancelled and the map is emptied; the objects stay
  with whoever holds a reference.\<close>

definition clear :: "MessageQueueManager \<Rightarrow> MessageQueueManager" where
  "clear s =
     (fold (\<lambda>e s'. clearSilenceTimer (snd e) s') (queues s) s)
       \<lparr> queues := [], processingContexts := {} \<rparr>"

text \<open>"Contains the name, case-insensitively" and "contains \<open>@\<close> followed by the
  name, case-insensitively", as statements about the strings: the lower-cased name,
  with \<open>@\<close> before it for the second, occurs in the lower-cased hay.\<close>

definition containsCI :: "(jsstring \<Rightarrow> jsstring) \<Rightarrow> jsstring \<Rightarrow> jsstring \<Rightarrow> bool" where
  "containsCI toLowerCase hay name \<longleftrightarrow> (\<exists>p q. toLowerCase hay = p @ toLowerCase name @ q)"

definition containsAtCI :: "(jsstring \<Rightarrow> jsstring) \<Rightarrow> jsstring \<Rightarrow> jsstring \<Rightarrow> bool" where
  "containsAtCI toLowerCase hay name \<longleftrightarrow>
     (\<exists>p q. toLowerCase hay = p @ str ''@'' @ toLowerCase name @ q)"

text \<open>A manager with the default configuration and no queue; a text message that
  mentions the bot; a stamina manager forced to 0.\<close>

definition defaultQueueConfig :: QueueConfig where
  "defaultQueueConfig =
     \<lparr> botName = str ''FingerBot'', silenceSeconds = 8, maxQueueSize = 10,
       maxQueueAgeSeconds = 30 \<rparr>"

definition emptyManager :: MessageQueueManager where
  "emptyManager =
     \<lparr> queueConfig = defaultQueueConfig, objects = (\<lambda>ref. newQueueState), allocated = 0,
       queues = [], processingContexts = {},
       totalProcessed = 0, mgr_lastFlushTime = None, mgr_lastFlushReason = None \<rparr>"

definition mentionMessage :: Message where
  "mentionMessage =
     \<lparr> msg_id = ''m1'', msg_userId = ''u1'', msg_userName = None, msg_groupId = None,
       msg_conversationId = Some ''c1'', msg_content = str ''@FingerBot hi'',
       msg_timestamp = 5000, msg_type = TextMessage \<rparr>"

definition fullStamina :: StaminaManager where
  "fullStamina = newStaminaManager defaultStaminaConfig 0"

definition exhaustedStamina :: StaminaManager where
  "exhaustedStamina = setStamina 0 (newStaminaManager defaultStaminaConfig 0)"

text \<open>A context with one queued text message, idle with its silence timer armed, and
  the same context while a flush of it is in flight.\<close>

definition helloQueued :: QueuedMessage where
  "helloQueued =
     convertToQueuedMessage asciiToLowerCase defaultQueueConfig
       (mentionMessage\<lparr> msg_content := str ''hello'' \<rparr>) ''conv_c1'' 7000"

definition idleManager :: MessageQueueManager where
  "idleManager =
     \<lparr> queueConfig = defaultQueueConfig,
       objects = (\<lambda>ref. newQueueState)
         (0 := \<lparr> messages = [helloQueued], silenceTimer = Some 8000, isProcessing = False,
                 lastFlushTime = None, lastFlushReason = None \<rparr>),
       allocated = 1,
       queues = [(''conv_c1'', 0)],
       processingContexts = {},
       totalProcessed = 0, mgr_lastFlushTime = None, mgr_lastFlushReason = None \<rparr>"

definition busyManager :: MessageQueueManager where
  "busyManager =
     \<lparr> queueConfig = defaultQueueConfig,
       objects = (\<lambda>ref. newQueueState)
         (0 := \<lparr> messages = [helloQueued], silenceTimer = Some 8000, isProcessing = True,
                 lastFlushTime = None, lastFlushReason = None \<rparr>),
       allocated = 1,
       queues = [(''conv_c1'', 0)],
       processingContexts = {''conv_c1''},
       totalProcessed = 0, mgr_lastFlushTime = None, mgr_lastFlushReason = None \<rparr>"

section \<open>Task runner (TaskQueue)\<close>

datatype TaskType = send_message | store_memory

datatype TaskPriority = high | normal

record TaskOptions =
  priority :: "TaskPriority option"
  opt_maxAttempts :: "int option"

text \<open>The promise returned by \<open>enqueue\<close>; a task holds its \<open>resolve\<close> and \<open>reject\<close>
  functions, here the index of the promise in the table of the queue.\<close>

datatype PromiseState = Pending | Resolved | Rejected string

record 'p InternalTask =
  task_id :: string
  task_type :: TaskType
  payload :: 'p
  attempts :: nat
  maxAttempts :: int
  createdAt :: int
  promise :: nat

text \<open>Where the single \<open>processQueue\<close> activation stands: not running, suspended in
  \<open>await handler(task)\<close>, or suspended in the retry delay of a failed task.\<close>

datatype 'p Runner =
    Idle
  | AwaitingHandler "'p InternalTask"
  | AwaitingRetryDelay "'p InternalTask"

record 'p TaskQueue =
  retryDelayStrategy :: "nat \<Rightarrow> int"
  handlers :: "TaskType set"
  queue :: "'p InternalTask list"
  tq_isProcessing :: bool
  stopRequested :: bool
  promises :: "PromiseState list"
  runner :: "'p Runner"
  immediateScheduled :: bool

text \<open>The default strategy \<open>min(1000 \<cdot> 2^(attempt - 1), 10000)\<close>; at attempt 0 the power
  is \<open>Math.pow(2, -1)\<close>.\<close>

definition defaultRetryDelay :: "nat \<Rightarrow> int" where
  "defaultRetryDelay attempt =
     (if attempt = 0 then 500 else min (1000 * 2 ^ (attempt - 1)) 10000)"

definition newTaskQueue :: "(nat \<Rightarrow> int) \<Rightarrow> 'p TaskQueue" where
  "newTaskQueue strategy =
     \<lparr> retryDelayStrategy = strategy, handlers = {}, queue = [], tq_isProcessing = False,
       stopRequested = False, promises = [], runner = Idle, immediateScheduled = False \<rparr>"

definition registerHandler :: "TaskType \<Rightarrow> 'p TaskQueue \<Rightarrow> 'p TaskQueue" where
  "registerHandler ty s = s\<lparr> handlers := insert ty (handlers s) \<rparr>"

definition settle :: "nat \<Rightarrow> PromiseState \<Rightarrow> PromiseState list \<Rightarrow> PromiseState list" where
  "settle i v ps = (if i < length ps \<and> ps ! i = Pending then ps[i := v] else ps)"

text \<open>Leaving the \<open>while\<close> loop: the \<open>finally\<close> block, then the check that schedules a
  further activation with \<open>setImmediate\<close>.\<close>

definition finishLoop :: "'p TaskQueue \<Rightarrow> 'p TaskQueue" where
  "finishLoop s =
     s\<lparr> tq_isProcessing := False, runner := Idle,
        immediateScheduled := (immediateScheduled s \<or> (\<not> stopRequested s \<and> queue s \<noteq> [])) \<rparr>"

text \<open>The \<open>while\<close> loop from its head up to the next suspension or to its exit.\<close>

function processLoop :: "'p TaskQueue \<Rightarrow> 'p TaskQueue" where
  "processLoop s =
     (if stopRequested s then finishLoop s
      else case queue s of
             [] \<Rightarrow> finishLoop s
           | task # rest \<Rightarrow>
               if task_type task \<in> handlers s then
                 s\<lparr> queue := rest,
                    runner := AwaitingHandler (task\<lparr> attempts := attempts task + 1 \<rparr>) \<rparr>
               else
                 processLoop
                   (s\<lparr> queue := rest,
                       promises := settle (promise task) (Rejected ''No handler for task type'')
                                     (promises s) \<rparr>))"
  by pat_completeness auto
termination
  by (relation "measure (\<lambda>s. length (queue s))") auto

definition processQueue :: "'p TaskQueue \<Rightarrow> 'p TaskQueue" where
  "processQueue s =
     (if tq_isProcessing s \<or> stopRequested s then s
      else processLoop (s\<lparr> tq_isProcessing := True \<rparr>))"

datatype TaskQueueError = NoHandlerRegistered

text \<open>\<open>enqueue\<close>: the index of the promise it returns and the state after the
  synchronous start of \<open>processQueue\<close>.  \<open>tid\<close> and \<open>now\<close> are the generated task id and
  the clock reading.\<close>

definition enqueue ::
  "TaskType \<Rightarrow> 'p \<Rightarrow> TaskOptions \<Rightarrow> string \<Rightarrow> int \<Rightarrow> 'p TaskQueue
     \<Rightarrow> TaskQueueError + (nat \<times> 'p TaskQueue)" where
  "enqueue ty pl options tid now s =
     (if ty \<notin> handlers s then Inl NoHandlerRegistered
      else
        let task = \<lparr> task_id = tid, task_type = ty, payload = pl, attempts = 0,
                     maxAttempts = (case opt_maxAttempts options of None \<Rightarrow> 3 | Some n \<Rightarrow> n),
                     createdAt = now, promise = length (promises s) \<rparr>;
            s1 = s\<lparr> promises := promises s @ [Pending] \<rparr>;
            s2 = (if priority options = Some high then s1\<lparr> queue := task # queue s1 \<rparr>
                  else s1\<lparr> queue := queue s1 @ [task] \<rparr>)
        in Inr (promise task, processQueue s2))"

text \<open>The activation scheduled by \<open>setImmediate\<close> runs.\<close>

definition runImmediate :: "'p TaskQueue \<Rightarrow> 'p TaskQueue" where
  "runImmediate s =
     (if immediateScheduled s then processQueue (s\<lparr> immediateScheduled := False \<rparr>) else s)"

text \<open>The awaited handler settles: it returns, or it throws an error.\<close>

datatype HandlerOutcome = Succeeded | Failed string

definition handlerSettled :: "HandlerOutcome \<Rightarrow> 'p TaskQueue \<Rightarrow> 'p TaskQueue" where
  "handlerSettled outcome s =
     (case runner s of
        AwaitingHandler task \<Rightarrow>
          (case outcome of
             Succeeded \<Rightarrow>
               processLoop (s\<lparr> promises := settle (promise task) Resolved (promises s) \<rparr>)
           | Failed e \<Rightarrow>
               if int (attempts task) < maxAttempts task then
                 (let delay = max 0 (retryDelayStrategy s (attempts task))
                  in if delay > 0 then s\<lparr> runner := AwaitingRetryDelay task \<rparr>
                     else processLoop (s\<lparr> queue := task # queue s \<rparr>))
               else
                 processLoop (s\<lparr> promises := settle (promise task) (Rejected e) (promises s) \<rparr>))
      | _ \<Rightarrow> s)"

definition retryDelayElapsed :: "'p TaskQueue \<Rightarrow> 'p TaskQueue" where
  "retryDelayElapsed s =
     (case runner s of
        AwaitingRetryDelay task \<Rightarrow> processLoop (s\<lparr> queue := task # queue s \<rparr>)
      | _ \<Rightarrow> s)"

text \<open>\<open>shutdown()\<close>: it sets the flag and then polls \<open>isProcessing\<close> every 50 ms.  Each
  function gives whether \<open>shutdown\<close> has returned after that step.\<close>

datatype ShutdownStep = ShutdownReturned | ShutdownWaiting

definition shutdownPoll :: "'p TaskQueue \<Rightarrow> ShutdownStep" where
  "shutdownPoll s = (if tq_isProcessing s then ShutdownWaiting else ShutdownReturned)"

definition shutdownStart :: "'p TaskQueue \<Rightarrow> ShutdownStep \<times> 'p TaskQueue" where
  "shutdownStart s =
     (let s1 = s\<lparr> stopRequested := True \<rparr> in (shutdownPoll s1, s1))"

text \<open>The in-flight attempt runs to its end: the handler settles, if the runner waits
  for it, and the retry delay elapses, if the runner waits or has come to wait for
  it.\<close>

definition attemptEnds :: "HandlerOutcome \<Rightarrow> 'p TaskQueue \<Rightarrow> 'p TaskQueue" where
  "attemptEnds outcome s = retryDelayElapsed (handlerSettled outcome s)"

text \<open>The shutdown as the specification words it: remaining tasks are discarded from the
  queue with their futures rejected.\<close>

definition spec_discardRemaining :: "'p TaskQueue \<Rightarrow> 'p TaskQueue" where
  "spec_discardRemaining s =
     s\<lparr> queue := [],
        promises := fold (\<lambda>t ps. settle (promise t) (Rejected ''shutdown'') ps) (queue s)
                      (promises s) \<rparr>"

text \<open>Scenario: two delivery tasks are enqueued, the first is in flight; and the same
  queue after the first attempt has failed, while the runner waits for the retry
  delay.\<close>

definition noOptions :: TaskOptions where
  "noOptions = \<lparr> priority = None, opt_maxAttempts = None \<rparr>"

definition twoTasksQueue :: "string TaskQueue" where
  "twoTasksQueue =
     (case enqueue send_message ''first'' noOptions ''t1'' 100
             (registerHandler send_message (newTaskQueue defaultRetryDelay)) of
        Inr (p1, s1) \<Rightarrow>
          (case enqueue send_message ''second'' noOptions ''t2'' 101 s1 of
             Inr (p2, s2) \<Rightarrow> s2
           | Inl e \<Rightarrow> s1)
      | Inl e \<Rightarrow> newTaskQueue defaultRetryDelay)"

definition twoTasksRetrying :: "string TaskQueue" where
  "twoTasksRetrying = handlerSettled (Failed ''timeout'') twoTasksQueue"

section \<open>JSON values and \<open>JSON.parse\<close>\<close>

text \<open>
  \<open>JSON.parse\<close> belongs to the platform.  The functions of the client take it as a
  parameter \<open>jp\<close>, \<open>None\<close> standing for the \<open>SyntaxError\<close> it throws; \<open>JSON_parse\<close> below is
  a recursive-descent parser of the JSON grammar used where a concrete parser is needed.
  A number is kept exactly, as its sign, its decimal digits \<open>d\<close> and a decimal exponent
  \<open>e\<close>, denoting \<open>d \<cdot> 10^e\<close>: the client only asks whether the double nearest to it is
  zero.  An object keeps its members in source order; a repeated key takes its last
  value.
\<close>

datatype json =
    JNull
  | JBool bool
  | JNumber bool nat int
  | JString jsstring
  | JArray "json list"
  | JObject "(jsstring \<times> json) list"

text \<open>The code unit of an ASCII character.\<close>

definition codeUnit :: "char \<Rightarrow> nat" where
  "codeUnit c = of_char c"

definition isJsonWs :: "nat \<Rightarrow> bool" where
  "isJsonWs c = (c = 32 \<or> c = 9 \<or> c = 10 \<or> c = 13)"

definition skipWs :: "jsstring \<Rightarrow> jsstring" where
  "skipWs cs = dropWhile isJsonWs cs"

definition isDigit :: "nat \<Rightarrow> bool" where
  "isDigit c = (48 \<le> c \<and> c \<le> 57)"

definition hexValue :: "nat \<Rightarrow> nat option" where
  "hexValue c =
     (if 48 \<le> c \<and> c \<le> 57 then Some (c - 48)
      else if 65 \<le> c \<and> c \<le> 70 then Some (c - 55)
      else if 97 \<le> c \<and> c \<le> 102 then Some (c - 87)
      else None)"

text \<open>The character after a backslash, other than \<open>u\<close>: the code unit it stands for.\<close>

definition unescape :: "nat \<Rightarrow> nat option" where
  "unescape e =
     (if e = 34 \<or> e = 92 \<or> e = codeUnit CHR ''/'' then Some e
      else if e = codeUnit CHR ''b'' then Some 8
      else if e = codeUnit CHR ''f'' then Some 12
      else if e = codeUnit CHR ''n'' then Some 10
      else if e = codeUnit CHR ''r'' then Some 13
      else if e = codeUnit CHR ''t'' then Some 9
      else None)"

text \<open>The characters of a string literal after its opening quote (code unit 34), up to
  the closing one; \<open>acc\<close> holds the decoded code units in reverse.  A backslash is code
  unit 92; \<open>\uXXXX\<close> is the code unit with that number.\<close>

fun parseStringBody :: "jsstring \<Rightarrow> jsstring \<Rightarrow> (jsstring \<times> jsstring) option" where
  "parseStringBody [] acc = None"
| "parseStringBody (c # cs) acc =
     (if c = 34 then Some (rev acc, cs)
      else if c = 92 then
        (case cs of
           [] \<Rightarrow> None
         | e # r \<Rightarrow>
             if e = codeUnit CHR ''u'' then
               (case r of
                  h1 # h2 # h3 # h4 # r' \<Rightarrow>
                    (case (hexValue h1, hexValue h2, hexValue h3, hexValue h4) of
                       (Some a, Some b, Some c', Some d) \<Rightarrow>
                         parseStringBody r' ((((a * 16 + b) * 16 + c') * 16 + d) # acc)
                     | _ \<Rightarrow> None)
                | _ \<Rightarrow> None)
             else (case unescape e of
                     None \<Rightarrow> None
                   | Some x \<Rightarrow> parseStringBody r (x # acc)))
      else if c < 32 then None
      else parseStringBody cs (c # acc))"

definition takeDigits :: "jsstring \<Rightarrow> jsstring \<times> jsstring" where
  "takeDigits cs = (takeWhile isDigit cs, dropWhile isDigit cs)"

definition digitsValue :: "jsstring \<Rightarrow> nat" where
  "digitsValue ds = fold (\<lambda>c n. 10 * n + (c - 48)) ds 0"

text \<open>A number: \<open>-? (0 | [1-9][0-9]*) (.[0-9]+)? ([eE][+-]?[0-9]+)?\<close>.  With
  integer digits \<open>ds\<close>, fraction digits \<open>fs\<close> and exponent \<open>x\<close> it denotes the digits
  \<open>ds fs\<close> times \<open>10^(x - length fs)\<close>.\<close>

definition parseNumber :: "jsstring \<Rightarrow> ((bool \<times> nat \<times> int) \<times> jsstring) option" where
  "parseNumber cs =
     (let (negative, r0) = (case cs of c # r \<Rightarrow> if c = codeUnit CHR ''-'' then (True, r)
                                               else (False, cs)
                                     | [] \<Rightarrow> (False, cs));
          intPart = (case r0 of
                       [] \<Rightarrow> None
                     | c # r \<Rightarrow> if c = codeUnit CHR ''0'' then Some ([c], r)
                               else if isDigit c then Some (takeDigits r0)
                               else None)
      in case intPart of
           None \<Rightarrow> None
         | Some (ds, r1) \<Rightarrow>
             (let frac = (case r1 of
                            c # r \<Rightarrow> if c = codeUnit CHR ''.'' then
                                        (let (fs, r2) = takeDigits r
                                         in if fs = [] then None else Some (fs, r2))
                                      else Some ([], r1)
                          | [] \<Rightarrow> Some ([], r1))
              in case frac of
                   None \<Rightarrow> None
                 | Some (fs, r2) \<Rightarrow>
                     (let ex = (case r2 of
                                  c # r \<Rightarrow>
                                    if c = codeUnit CHR ''e'' \<or> c = codeUnit CHR ''E'' then
                                      (let (sg, r3) =
                                             (case r of
                                                s # r' \<Rightarrow>
                                                  if s = codeUnit CHR ''+'' then (1, r')
                                                  else if s = codeUnit CHR ''-'' then (- 1, r')
                                                  else (1, r)
                                              | [] \<Rightarrow> (1, r));
                                           (es, r4) = takeDigits r3
                                       in if es = [] then None
                                          else Some (sg * int (digitsValue es), r4))
                                    else Some (0, r2)
                                | [] \<Rightarrow> Some (0, r2))
                      in case ex of
                           None \<Rightarrow> None
                         | Some (x, r4) \<Rightarrow>
                             Some ((negative, digitsValue (ds @ fs), x - int (length fs)), r4))))"

definition expectWord :: "jsstring \<Rightarrow> json \<Rightarrow> jsstring \<Rightarrow> (json \<times> jsstring) option" where
  "expectWord w v cs = (if take (length w) cs = w then Some (v, drop (length w) cs) else None)"

text \<open>Values, array elements and object members; the first argument bounds the number
  of nested calls, and running out of it counts as a parse failure.\<close>

fun parseValue :: "nat \<Rightarrow> jsstring \<Rightarrow> (json \<times> jsstring) option"
  and parseElements :: "nat \<Rightarrow> jsstring \<Rightarrow> json list \<Rightarrow> (json \<times> jsstring) option"
  and parseMembers :: "nat \<Rightarrow> jsstring \<Rightarrow> (jsstring \<times> json) list \<Rightarrow> (json \<times> jsstring) option"
where
  "parseValue 0 cs = None"
| "parseValue (Suc f) cs =
     (case skipWs cs of
        [] \<Rightarrow> None
      | c # r \<Rightarrow>
          if c = codeUnit CHR ''{'' then
            (case skipWs r of
               [] \<Rightarrow> None
             | d # r' \<Rightarrow> if d = codeUnit CHR ''}'' then Some (JObject [], r')
                         else parseMembers f r [])
          else if c = codeUnit CHR ''['' then
            (case skipWs r of
               [] \<Rightarrow> None
             | d # r' \<Rightarrow> if d = codeUnit CHR '']'' then Some (JArray [], r')
                         else parseElements f r [])
          else if c = 34 then
            (case parseStringBody r [] of
               None \<Rightarrow> None
             | Some (s, r') \<Rightarrow> Some (JString s, r'))
          else if c = codeUnit CHR ''t'' then expectWord (str ''true'') (JBool True) (c # r)
          else if c = codeUnit CHR ''f'' then expectWord (str ''false'') (JBool False) (c # r)
          else if c = codeUnit CHR ''n'' then expectWord (str ''null'') JNull (c # r)
          else (case parseNumber (c # r) of
                  None \<Rightarrow> None
                | Some ((negative, d, x), r') \<Rightarrow> Some (JNumber negative d x, r')))"
| "parseElements 0 cs acc = None"
| "parseElements (Suc f) cs acc =
     (case parseValue f cs of
        None \<Rightarrow> None
      | Some (v, r) \<Rightarrow>
          (case skipWs r of
             [] \<Rightarrow> None
           | d # r' \<Rightarrow>
               if d = codeUnit CHR '','' then parseElements f r' (acc @ [v])
               else if d = codeUnit CHR '']'' then Some (JArray (acc @ [v]), r')
               else None))"
| "parseMembers 0 cs acc = None"
| "parseMembers (Suc f) cs acc =
     (case skipWs cs of
        [] \<Rightarrow> None
      | q # r \<Rightarrow>
          if q \<noteq> 34 then None
          else
            (case parseStringBody r [] of
               None \<Rightarrow> None
             | Some (k, r1) \<Rightarrow>
                 (case skipWs r1 of
                    [] \<Rightarrow> None
                  | colon # r2 \<Rightarrow>
                      if colon \<noteq> codeUnit CHR '':'' then None
                      else
                        (case parseValue f r2 of
                           None \<Rightarrow> None
                         | Some (v, r3) \<Rightarrow>
                             (case skipWs r3 of
                                [] \<Rightarrow> None
                              | d # r4 \<Rightarrow>
                                  if d = codeUnit CHR '','' then parseMembers f r4 (acc @ [(k, v)])
                                  else if d = codeUnit CHR ''}''
                                  then Some (JObject (acc @ [(k, v)]), r4)
                                  else None)))))"

definition JSON_parse :: "jsstring \<Rightarrow> json option" where
  "JSON_parse text =
     (case parseValue (Suc (length text)) text of
        None \<Rightarrow> None
      | Some (v, r) \<Rightarrow> if skipWs r = [] then Some v else None)"

text \<open>Property read \<open>parsed.name\<close> on a parsed value other than \<open>null\<close> (\<open>None\<close> is
  \<open>undefined\<close>), and the truthiness of what it gives.  A number is falsy when its double
  is zero: when its digits are zero, or when it is so small that it rounds to zero, which
  is at or below \<open>2^-1075\<close>, half of the least positive double.\<close>

definition getProp :: "json \<Rightarrow> jsstring \<Rightarrow> json option" where
  "getProp v name = (case v of JObject fs \<Rightarrow> map_of (rev fs) name | _ \<Rightarrow> None)"

definition numberIsZero :: "nat \<Rightarrow> int \<Rightarrow> bool" where
  "numberIsZero d x = (d = 0 \<or> (x < 0 \<and> d * 2 ^ 1075 \<le> 10 ^ nat (- x)))"

definition truthy :: "json option \<Rightarrow> bool" where
  "truthy v =
     (case v of
        None \<Rightarrow> False
      | Some JNull \<Rightarrow> False
      | Some (JBool b) \<Rightarrow> b
      | Some (JNumber negative d x) \<Rightarrow> \<not> numberIsZero d x
      | Some (JString s) \<Rightarrow> s \<noteq> []
      | Some (JArray xs) \<Rightarrow> True
      | Some (JObject fs) \<Rightarrow> True)"

definition asString :: "json option \<Rightarrow> jsstring option" where
  "asString v = (case v of Some (JString s) \<Rightarrow> Some s | _ \<Rightarrow> None)"

fun stringsOf :: "json list \<Rightarrow> jsstring list option" where
  "stringsOf [] = Some []"
| "stringsOf (JString s # r) = (case stringsOf r of None \<Rightarrow> None | Some ss \<Rightarrow> Some (s # ss))"
| "stringsOf (v # r) = None"

section \<open>LLM client (GeminiClient, JSON-only reply schema)\<close>

record ParseResult =
  pr_messages :: "jsstring list option"
  pr_thinking :: "jsstring option"
  pr_reason :: "jsstring option"

definition emptyResult :: ParseResult where
  "emptyResult = \<lparr> pr_messages = None, pr_thinking = None, pr_reason = None \<rparr>"

text \<open>The two replacements of \<open>parseTextResponse\<close>: \<open>/^```json\n?/i\<close> and \<open>/```\s*$/g\<close>.
  Under the flag \<open>i\<close> the letters of \<open>json\<close> match themselves and their capitals.\<close>

definition stripFenceStart :: "jsstring \<Rightarrow> jsstring" where
  "stripFenceStart s =
     (if asciiToLowerCase (take 7 s) = str ''```json'' then
        (case drop 7 s of
           [] \<Rightarrow> []
         | c # r \<Rightarrow> if c = 10 then r else c # r)
      else s)"

definition endsWith :: "'a list \<Rightarrow> 'a list \<Rightarrow> bool" where
  "endsWith s suffix = startsWith (rev s) (rev suffix)"

definition stripFenceEnd :: "jsstring \<Rightarrow> jsstring" where
  "stripFenceEnd s =
     (let t = trimEnd s in if endsWith t (str ''```'') then take (length t - 3) t else s)"

text \<open>
  \<open>parseTextResponse(text)\<close>.  The declared result type has \<open>messages: string[]\<close>; the
  code copies a parsed array as it is, so the result is \<open>None\<close> (outside the declared
  types) when the array under \<open>messages\<close> has an element that is not a string.  Both the
  \<open>SyntaxError\<close> of \<open>JSON.parse\<close> and the \<open>TypeError\<close> of reading a property of \<open>null\<close>
  are caught and lead to the raw-text fallback.
\<close>

definition rawTextFallback :: "jsstring \<Rightarrow> ParseResult" where
  "rawTextFallback text =
     (if trim text \<noteq> [] then emptyResult\<lparr> pr_messages := Some [trim text] \<rparr> else emptyResult)"

definition parseTextResponse :: "(jsstring \<Rightarrow> json option) \<Rightarrow> jsstring \<Rightarrow> ParseResult option" where
  "parseTextResponse jp text =
     (if text = [] then Some emptyResult
      else
        let cleaned = stripFenceEnd (stripFenceStart (trim text)) in
        case jp cleaned of
          None \<Rightarrow> Some (rawTextFallback text)
        | Some JNull \<Rightarrow> Some (rawTextFallback text)
        | Some parsed \<Rightarrow>
            if truthy (getProp parsed (str ''messages'')) \<or>
               truthy (getProp parsed (str ''thinking'')) \<or>
               truthy (getProp parsed (str ''reason''))
            then
              (let th = asString (getProp parsed (str ''thinking''));
                   rs = asString (getProp parsed (str ''reason''))
               in case getProp parsed (str ''messages'') of
                    Some (JArray xs) \<Rightarrow>
                      (case stringsOf xs of
                         None \<Rightarrow> None
                       | Some ss \<Rightarrow>
                           Some \<lparr> pr_messages = Some ss, pr_thinking = th, pr_reason = rs \<rparr>)
                  | Some (JString m) \<Rightarrow>
                      Some \<lparr> pr_messages = Some [m], pr_thinking = th, pr_reason = rs \<rparr>
                  | _ \<Rightarrow> Some \<lparr> pr_messages = None, pr_thinking = th, pr_reason = rs \<rparr>)
            else Some (rawTextFallback text))"

text \<open>The string literals of \<open>generateResponse\<close>, as code units: the default thinking
  text (seven Chinese characters and three dots), the thinking text of the raw-text tool
  call, and the prefix of the no-reply task.\<close>

definition DEFAULT_THINKING :: jsstring where
  "DEFAULT_THINKING = [22788, 29702, 29992, 25143, 35831, 27714, 20013, 46, 46, 46]"

definition RAW_TEXT_THINKING :: jsstring where
  "RAW_TEXT_THINKING = [36820, 22238, 21407, 22987, 25991, 26412, 21709, 24212]"

definition NO_REPLY_PREFIX :: jsstring where
  "NO_REPLY_PREFIX = [20915, 23450, 19981, 22238, 22797, 65306]"

definition noPayload :: ToolPayload where
  "noPayload =
     \<lparr> tp_action = None, tp_messages = None, tp_reason = None, tp_thinking = None,
       tp_userId = None \<rparr>"

text \<open>The part of the closure of \<open>generateResponse\<close> after \<open>parseTextResponse\<close>: from the
  response text and the parse result to the \<open>ChatResponse\<close>.\<close>

definition buildResponse :: "jsstring \<Rightarrow> ParseResult \<Rightarrow> ChatResponse" where
  "buildResponse textResponse result =
     (let hasMessages = (case pr_messages result of None \<Rightarrow> False | Some ms \<Rightarrow> ms \<noteq> []);
          ms = (case pr_messages result of None \<Rightarrow> [] | Some ms \<Rightarrow> ms);
          hasReason = truthyStr (pr_reason result);
          thinking0 = (if truthyStr (pr_thinking result) then the (pr_thinking result) else []);
          toolCalls0 =
            (if hasMessages then
               [\<lparr> tc_name = ''reply_message'',
                  tc_arguments = noPayload\<lparr> tp_messages := Some ms,
                                            tp_thinking := pr_thinking result \<rparr>,
                  tc_result = Some (noPayload\<lparr> tp_action := Some ''reply'',
                                                tp_messages := Some ms,
                                                tp_thinking := pr_thinking result \<rparr>) \<rparr>]
             else if hasReason then
               [\<lparr> tc_name = ''no_reply'',
                  tc_arguments = noPayload\<lparr> tp_reason := pr_reason result,
                                            tp_thinking := pr_thinking result \<rparr>,
                  tc_result = Some (noPayload\<lparr> tp_action := Some ''no_reply'',
                                                tp_reason := pr_reason result,
                                                tp_thinking := pr_thinking result \<rparr>) \<rparr>]
             else if trim textResponse \<noteq> [] then
               [\<lparr> tc_name = ''reply_message'',
                  tc_arguments = noPayload\<lparr> tp_messages := Some [textResponse],
                                            tp_thinking := Some RAW_TEXT_THINKING \<rparr>,
                  tc_result = Some (noPayload\<lparr> tp_action := Some ''reply'',
                                                tp_messages := Some [textResponse],
                                                tp_thinking := Some RAW_TEXT_THINKING \<rparr>) \<rparr>]
             else []);
          tasks0 =
            (if hasMessages then [ReplyTask ms]
             else if hasReason then [ThinkingTask (NO_REPLY_PREFIX @ the (pr_reason result))]
             else [])
      in \<lparr> content = (if hasMessages then hd ms else []),
           skipReply = Some (\<not> hasMessages \<and> hasReason),
           thinking = Some (if thinking0 = [] then DEFAULT_THINKING else thinking0),
           replies = (if hasMessages then Some ms else None),
           messageIds = None,
           tasks = (if tasks0 \<noteq> [] then Some tasks0 else None),
           toolCalls = (if toolCalls0 \<noteq> [] then Some toolCalls0 else None) \<rparr>)"

text \<open>
  The remote model is the environment: \<open>remote n key prompt\<close> is what the \<open>n\<close>-th
  \<open>generateContent\<close> request of the client gets, an error thrown or a response, of which
  the code reads \<open>text\<close>.  The client records every request it sends.
\<close>

record GenerateContentResponse =
  gc_text :: "jsstring option"

type_synonym Remote = "nat \<Rightarrow> string \<Rightarrow> string \<Rightarrow> ApiError option + GenerateContentResponse"

datatype 'a Outcome = Returns 'a | Throws "ApiError option" | OutsideTypes

record GeminiClient =
  keyManager :: ApiKeyManager
  currentApiKey :: string
  requests :: "(string \<times> string) list"

definition MAX_RETRIES :: nat where
  "MAX_RETRIES = 3"

text \<open>The closure that \<open>generateResponse\<close> passes to \<open>executeWithRetry\<close>; \<open>fullPrompt\<close> is
  the prompt built from the persona, the context and the user message.\<close>

definition operation ::
  "(jsstring \<Rightarrow> json option) \<Rightarrow> Remote \<Rightarrow> string \<Rightarrow> GeminiClient
     \<Rightarrow> ChatResponse Outcome \<times> GeminiClient" where
  "operation jp remote fullPrompt c =
     (let c1 = c\<lparr> requests := requests c @ [(currentApiKey c, fullPrompt)] \<rparr>
      in case remote (length (requests c)) (currentApiKey c) fullPrompt of
           Inl err \<Rightarrow> (Throws err, c1)
         | Inr resp \<Rightarrow>
             (let textResponse = (if truthyStr (gc_text resp) then the (gc_text resp) else [])
              in case parseTextResponse jp textResponse of
                   None \<Rightarrow> (OutsideTypes, c1)
                 | Some result \<Rightarrow> (Returns (buildResponse textResponse result), c1)))"

definition shouldSwitchKey :: "(jsstring \<Rightarrow> jsstring) \<Rightarrow> ApiError option \<Rightarrow> bool" where
  "shouldSwitchKey toLowerCase error =
     (case error of
        None \<Rightarrow> False
      | Some e \<Rightarrow>
          err_status e = Some 429 \<or> err_code e = Some 429 \<or>
          (case err_message e of
             None \<Rightarrow> False
           | Some m \<Rightarrow> m \<noteq> [] \<and>
               (includesStr m (str ''429'') \<or>
                includesStr (toLowerCase m) (str ''rate limit'') \<or>
                includesStr (toLowerCase m) (str ''quota exceeded'') \<or>
                includesStr (toLowerCase m) (str ''api key'') \<or>
                includesStr (toLowerCase m) (str ''invalid key''))))"

definition switchApiKey :: "int \<Rightarrow> GeminiClient \<Rightarrow> GeminiClient" where
  "switchApiKey now c =
     (case getCurrentApiKey now (keyManager c) of
        (Some k, km) \<Rightarrow> c\<lparr> keyManager := km, currentApiKey := k \<rparr>
      | (None, km) \<Rightarrow> c\<lparr> keyManager := km \<rparr>)"

text \<open>
  \<open>executeWithRetry\<close>: the loop over the attempts, by the number of attempts left.
  \<open>clock a\<close> is the clock reading in the \<open>catch\<close> block of attempt \<open>a\<close>; the sleeps between
  attempts change no state.  When all attempts have failed, the status of the key manager
  is read for the log, which sweeps expired blocks, and the last error is thrown.
\<close>

fun retryLoop ::
  "(jsstring \<Rightarrow> json option) \<Rightarrow> (jsstring \<Rightarrow> jsstring) \<Rightarrow> Remote \<Rightarrow> (nat \<Rightarrow> int) \<Rightarrow> string \<Rightarrow> nat
     \<Rightarrow> ApiError option \<Rightarrow> GeminiClient \<Rightarrow> ChatResponse Outcome \<times> GeminiClient" where
  "retryLoop jp toLowerCase remote clock fullPrompt 0 lastError c =
     (Throws lastError,
      c\<lparr> keyManager :=
           snd (getCurrentApiKey (clock MAX_RETRIES)
                  (cleanExpiredBlocks (clock MAX_RETRIES) (keyManager c))) \<rparr>)"
| "retryLoop jp toLowerCase remote clock fullPrompt (Suc left) lastError c =
     (case operation jp remote fullPrompt c of
        (Returns r, c1) \<Rightarrow> (Returns r, c1)
      | (OutsideTypes, c1) \<Rightarrow> (OutsideTypes, c1)
      | (Throws err, c1) \<Rightarrow>
          (let now = clock (MAX_RETRIES - left);
               c2 = c1\<lparr> keyManager :=
                          recordError toLowerCase (currentApiKey c1) err now now (keyManager c1) \<rparr>;
               c3 = (if shouldSwitchKey toLowerCase err then switchApiKey now c2 else c2)
           in retryLoop jp toLowerCase remote clock fullPrompt left err c3))"

definition generateResponse ::
  "(jsstring \<Rightarrow> json option) \<Rightarrow> (jsstring \<Rightarrow> jsstring) \<Rightarrow> Remote \<Rightarrow> (nat \<Rightarrow> int) \<Rightarrow> string
     \<Rightarrow> GeminiClient \<Rightarrow> ChatResponse Outcome \<times> GeminiClient" where
  "generateResponse jp toLowerCase remote clock fullPrompt c =
     retryLoop jp toLowerCase remote clock fullPrompt MAX_RETRIES None c"

text \<open>Scenario "parse retry then fallback": the model answers the first request with
  \<open>not-json\<close> and would answer any further request with \<open>still-not-json\<close>.  In the second
  scenario the first request fails with HTTP 429 and the retry is answered with
  \<open>not-json\<close>.\<close>

definition notJsonRemote :: Remote where
  "notJsonRemote n key prompt =
     (if n = 0 then Inr \<lparr> gc_text = Some (str ''not-json'') \<rparr>
      else Inr \<lparr> gc_text = Some (str ''still-not-json'') \<rparr>)"

definition failingOnceRemote :: Remote where
  "failingOnceRemote n key prompt =
     (if n = 0 then Inl error429 else Inr \<lparr> gc_text = Some (str ''not-json'') \<rparr>)"

definition fixedClock :: "nat \<Rightarrow> int" where
  "fixedClock a = 1000000 + int a"

definition freshClient :: GeminiClient where
  "freshClient = \<lparr> keyManager = twoKeys, currentApiKey = ''A'', requests = [] \<rparr>"

text \<open>The decision of the specification for a text that failed to parse twice.\<close>

definition spec_formatFallback :: "jsstring \<Rightarrow> ChatResponse" where
  "spec_formatFallback rawText =
     buildResponse rawText
       \<lparr> pr_messages = Some [rawText], pr_thinking = Some (str ''format fallback''),
         pr_reason = None \<rparr>"

text \<open>The two responses of the raw-text fallback: a reply whose only message is the
  trimmed text, with the default thinking text; and, for a blank text, a response that
  carries no reply.\<close>

definition rawReply :: "jsstring \<Rightarrow> ChatResponse" where
  "rawReply t =
     \<lparr> content = t, skipReply = Some False, thinking = Some DEFAULT_THINKING,
       replies = Some [t], messageIds = None, tasks = Some [ReplyTask [t]],
       toolCalls =
         Some [\<lparr> tc_name = ''reply_message'',
                 tc_arguments = noPayload\<lparr> tp_messages := Some [t] \<rparr>,
                 tc_result = Some (noPayload\<lparr> tp_action := Some ''reply'',
                                               tp_messages := Some [t] \<rparr>) \<rparr>] \<rparr>"

definition nothingToSay :: ChatResponse where
  "nothingToSay =
     \<lparr> content = [], skipReply = Some False, thinking = Some DEFAULT_THINKING,
       replies = None, messageIds = None, tasks = None, toolCalls = None \<rparr>"

section \<open>Outbound correlator (EnhancedQQChatAgentServer)\<close>

datatype QQMessageType = PrivateMessage | GroupMessage

record QQMessage =
  message_type :: QQMessageType
  message_id :: int
  user_id :: int
  group_id :: "int option"
  raw_message :: string

record PendingReply =
  qqMessage :: QQMessage
  pending_timestamp :: int

record MessageTarget =
  target_userId :: "int option"
  target_groupId :: "int option"
  atUser :: "int option"

record SendMessageTaskPayload =
  target :: MessageTarget
  message :: jsstring
  meta_qqMessage :: QQMessage
  meta_pendingMessageId :: string

record StoreMemoryTaskPayload =
  memoryType :: string
  memory_content :: jsstring
  meta_contextId :: string
  associatedMessageIds :: "string list"
  finalReplies :: "jsstring list"

datatype TaskPayload = SendMessage SendMessageTaskPayload | StoreMemory StoreMemoryTaskPayload

text \<open>
  The server awaits the promise of every \<open>taskQueue.enqueue\<close> call.  What becomes of
  the \<open>i\<close>-th enqueued task is the environment \<open>env i\<close>: its handler succeeds, it fails
  for good, or the promise never settles (the runner has been stopped).  The state keeps
  the enqueue calls in order; \<open>hung\<close> says that the function is suspended for ever.
\<close>

datatype EnqueueOutcome = TaskResolved | TaskRejected string | NeverSettles

record AgentServer =
  pendingReplies :: "(string \<times> PendingReply) list"
  enqueuedTasks :: "TaskPayload list"
  adminErrorReports :: nat
  hung :: bool

definition removePendingReply :: "string \<Rightarrow> AgentServer \<Rightarrow> AgentServer" where
  "removePendingReply pendingId c = c\<lparr> pendingReplies := Map_delete pendingId (pendingReplies c) \<rparr>"

text \<open>\<open>QQMessageAdapter.formatReply\<close>: \<open>length\<close> and \<open>substring\<close> count code units.\<close>

definition formatReply :: "jsstring \<Rightarrow> jsstring" where
  "formatReply reply = (if length reply > 1000 then take 997 reply @ str ''...'' else reply)"

definition mentionedUser :: "ToolCallInfo list option \<Rightarrow> bool \<Rightarrow> int option" where
  "mentionedUser calls isGroup =
     (case calls of
        None \<Rightarrow> None
      | Some cs \<Rightarrow>
          if \<not> isGroup then None
          else
            (case find (\<lambda>call. tc_name call = ''mention_user'' \<and>
                          (case tc_result call of
                             None \<Rightarrow> False
                           | Some res \<Rightarrow> tp_action res = Some ''mention'')) cs of
               None \<Rightarrow> None
             | Some mentionTool \<Rightarrow>
                 (case tc_result mentionTool of
                    None \<Rightarrow> None
                  | Some res \<Rightarrow>
                      (case tp_userId res of
                         None \<Rightarrow> None
                       | Some u \<Rightarrow> if u \<noteq> 0 then Some u else None))))"

definition sendPayload ::
  "QQMessage \<Rightarrow> jsstring \<Rightarrow> string \<Rightarrow> ToolCallInfo list option \<Rightarrow> SendMessageTaskPayload" where
  "sendPayload qq replyText pendingMessageId calls =
     (let isGroup = (message_type qq = GroupMessage);
          mention = mentionedUser calls isGroup
      in \<lparr> target =
             (if isGroup \<and> (case group_id qq of None \<Rightarrow> False | Some g \<Rightarrow> g \<noteq> 0)
              then \<lparr> target_userId = None, target_groupId = group_id qq, atUser = mention \<rparr>
              else \<lparr> target_userId = Some (user_id qq), target_groupId = None, atUser = None \<rparr>),
           message = replyText,
           meta_qqMessage = qq,
           meta_pendingMessageId = pendingMessageId \<rparr>)"

datatype AwaitResult = Completed | Threw string | Suspended

text \<open>\<open>sendReply\<close>: the task is enqueued and its promise awaited.  When the task
  settles the pending entry is gone: the handler removes it on success, the \<open>catch\<close>
  block of \<open>sendReply\<close> on failure.\<close>

definition sendReply ::
  "(nat \<Rightarrow> EnqueueOutcome) \<Rightarrow> QQMessage \<Rightarrow> jsstring \<Rightarrow> string \<Rightarrow> ToolCallInfo list option
     \<Rightarrow> AgentServer \<Rightarrow> AwaitResult \<times> AgentServer" where
  "sendReply env qq replyText pendingMessageId calls c =
     (let c1 = c\<lparr> enqueuedTasks :=
                    enqueuedTasks c @ [SendMessage (sendPayload qq replyText pendingMessageId calls)] \<rparr>
      in case env (length (enqueuedTasks c)) of
           TaskResolved \<Rightarrow> (Completed, removePendingReply pendingMessageId c1)
         | TaskRejected e \<Rightarrow> (Threw e, removePendingReply pendingMessageId c1)
         | NeverSettles \<Rightarrow> (Suspended, c1\<lparr> hung := True \<rparr>))"

text \<open>The inner loop of \<open>enqueueChatTasks\<close> over the strings of one reply task; a failed
  delivery is reported to the administrator and the loop goes on.\<close>

fun sendReplies ::
  "(nat \<Rightarrow> EnqueueOutcome) \<Rightarrow> string \<times> QQMessage \<Rightarrow> ToolCallInfo list option \<Rightarrow> jsstring list
     \<Rightarrow> AgentServer \<Rightarrow> AgentServer" where
  "sendReplies env primaryPending calls [] c = c"
| "sendReplies env primaryPending calls (replyContent # rest) c =
     (if hung c then c
      else
        (case sendReply env (snd primaryPending) (formatReply replyContent) (fst primaryPending)
                calls c of
           (Threw e, c1) \<Rightarrow>
             sendReplies env primaryPending calls rest
               (c1\<lparr> adminErrorReports := adminErrorReports c1 + 1 \<rparr>)
         | (r, c1) \<Rightarrow> sendReplies env primaryPending calls rest c1))"

definition enqueueThinkingTask ::
  "(nat \<Rightarrow> EnqueueOutcome) \<Rightarrow> jsstring \<Rightarrow> string list \<Rightarrow> string \<Rightarrow> jsstring list
     \<Rightarrow> AgentServer \<Rightarrow> AgentServer" where
  "enqueueThinkingTask env taskContent associated ctx aggregateReplies c =
     (let c1 = c\<lparr> enqueuedTasks :=
                    enqueuedTasks c @
                      [StoreMemory \<lparr> memoryType = ''thinking'', memory_content = taskContent,
                                     meta_contextId = ctx, associatedMessageIds = associated,
                                     finalReplies = aggregateReplies \<rparr>] \<rparr>
      in case env (length (enqueuedTasks c)) of
           NeverSettles \<Rightarrow> c1\<lparr> hung := True \<rparr>
         | _ \<Rightarrow> c1)"

definition collectRepliesFromTasks :: "ChatTask list \<Rightarrow> jsstring list" where
  "collectRepliesFromTasks ts =
     filter (\<lambda>r. r \<noteq> [])
       (map trim (concat (map (\<lambda>t. case t of ReplyTask cs \<Rightarrow> cs | ThinkingTask x \<Rightarrow> []) ts)))"

fun tasksLoop ::
  "(nat \<Rightarrow> EnqueueOutcome) \<Rightarrow> (string \<times> QQMessage) option \<Rightarrow> string list \<Rightarrow> string
     \<Rightarrow> jsstring list \<Rightarrow> ToolCallInfo list option \<Rightarrow> ChatTask list \<Rightarrow> AgentServer \<Rightarrow> AgentServer" where
  "tasksLoop env primaryPending associated ctx aggregate calls [] c = c"
| "tasksLoop env primaryPending associated ctx aggregate calls (task # rest) c =
     (if hung c then c
      else
        (case task of
           ThinkingTask content' \<Rightarrow>
             tasksLoop env primaryPending associated ctx aggregate calls rest
               (enqueueThinkingTask env content' associated ctx aggregate c)
         | ReplyTask contents \<Rightarrow>
             (case primaryPending of
                None \<Rightarrow> tasksLoop env primaryPending associated ctx aggregate calls rest c
              | Some p \<Rightarrow>
                  tasksLoop env primaryPending associated ctx aggregate calls rest
                    (sendReplies env p calls contents c))))"

definition enqueueChatTasks ::
  "(nat \<Rightarrow> EnqueueOutcome) \<Rightarrow> ChatTask list \<Rightarrow> (string \<times> QQMessage) list \<Rightarrow> ChatResponse
     \<Rightarrow> string \<Rightarrow> AgentServer \<Rightarrow> AgentServer" where
  "enqueueChatTasks env ts pendings resp ctx c =
     (let primaryPending = (if pendings = [] then None else Some (last pendings));
          associated = map fst pendings;
          aggregate = collectRepliesFromTasks ts;
          c1 = tasksLoop env primaryPending associated ctx aggregate (toolCalls resp) ts c
      in if hung c1 then c1
         else
           (case primaryPending of
              None \<Rightarrow> c1
            | Some p \<Rightarrow>
                if fst p = [] then c1
                else fold (\<lambda>pending s. if fst pending = fst p then s
                                         else removePendingReply (fst pending) s) pendings c1))"

definition normalizeChatTasks :: "ChatResponse \<Rightarrow> ChatTask list" where
  "normalizeChatTasks resp =
     (case tasks resp of
        Some (t # ts) \<Rightarrow>
          concat (map (\<lambda>task. case task of
                                ThinkingTask x \<Rightarrow>
                                  (if trim x \<noteq> [] then [ThinkingTask (trim x)] else [])
                              | ReplyTask cs \<Rightarrow>
                                  (let rs = filter (\<lambda>r. r \<noteq> []) (map trim cs)
                                   in if rs \<noteq> [] then [ReplyTask rs] else []))
                      (t # ts))
      | _ \<Rightarrow>
          (let thinkingTasks =
                 (case thinking resp of
                    None \<Rightarrow> []
                  | Some x \<Rightarrow> if x \<noteq> [] \<and> trim x \<noteq> [] then [ThinkingTask (trim x)] else []);
               fallbackReplies =
                 filter (\<lambda>r. r \<noteq> [])
                   (map trim ((case replies resp of None \<Rightarrow> [] | Some rs \<Rightarrow> rs) @
                              (if content resp \<noteq> [] then [content resp] else [])))
           in thinkingTasks @ (if fallbackReplies \<noteq> [] then [ReplyTask fallbackReplies] else [])))"

definition extractMessageIdsFromResult :: "QueueProcessResult \<Rightarrow> AgentServer \<Rightarrow> string list" where
  "extractMessageIdsFromResult result c =
     (case (case response result of None \<Rightarrow> None | Some resp \<Rightarrow> messageIds resp) of
        Some ids \<Rightarrow> ids
      | None \<Rightarrow>
          (let ids = filter (\<lambda>i. i \<noteq> []) (map log_messageId (res_messages result))
           in if ids \<noteq> [] then ids else map fst (pendingReplies c)))"

definition getPendingRepliesForMessages :: "string list \<Rightarrow> AgentServer \<Rightarrow> (string \<times> QQMessage) list" where
  "getPendingRepliesForMessages ids c =
     concat (map (\<lambda>i. case Map_get (pendingReplies c) i of
                         None \<Rightarrow> []
                       | Some entry \<Rightarrow> [(i, qqMessage entry)]) ids)"

definition handleQueueFlushResult ::
  "(nat \<Rightarrow> EnqueueOutcome) \<Rightarrow> QueueProcessResult \<Rightarrow> AgentServer \<Rightarrow> AgentServer" where
  "handleQueueFlushResult env result c =
     (case response result of
        None \<Rightarrow> c
      | Some resp \<Rightarrow>
          if \<not> processed result \<or> skipReply resp = Some True then c
          else
            (let chatTasks = normalizeChatTasks resp;
                 ids = extractMessageIdsFromResult result c;
                 pendings = getPendingRepliesForMessages ids c
             in if pendings = [] then c
                else if chatTasks = [] then
                  fold (\<lambda>pending s. removePendingReply (fst pending) s) pendings c
                else enqueueChatTasks env chatTasks pendings resp (res_contextId result) c))"

text \<open>The texts of the delivery tasks among the enqueue calls, in order.\<close>

definition deliveryTexts :: "TaskPayload list \<Rightarrow> jsstring list" where
  "deliveryTexts ps =
     concat (map (\<lambda>p. case p of SendMessage sp \<Rightarrow> [message sp] | StoreMemory mp \<Rightarrow> []) ps)"

text \<open>The flush result that reaches the correlator for a reply decision with the strings
  \<open>ms\<close>: the response is built by the client from the parsed text and tagged by the
  batch processor with the ids of the batch.\<close>

definition replyDecisionResult ::
  "QueuedMessage list \<Rightarrow> jsstring \<Rightarrow> jsstring list \<Rightarrow> jsstring option \<Rightarrow> jsstring option
     \<Rightarrow> FlushReason \<Rightarrow> string \<Rightarrow> QueueProcessResult" where
  "replyDecisionResult batch textResponse ms th rs r ctx =
     processedResult batch
       ((buildResponse textResponse \<lparr> pr_messages = Some ms, pr_thinking = th, pr_reason = rs \<rparr>)
          \<lparr> messageIds := Some (map messageId batch) \<rparr>)
       r ctx"

text \<open>Scenario: one pending inbound message \<open>m1\<close> in context \<open>conv_c1\<close>; every task
  settles, or the runner is stopped and none does.\<close>

definition inboundQQ :: QQMessage where
  "inboundQQ =
     \<lparr> message_type = PrivateMessage, message_id = 1, user_id = 42, group_id = None,
       raw_message = ''hello'' \<rparr>"

definition serverWithPending :: AgentServer where
  "serverWithPending =
     \<lparr> pendingReplies = [(''m1'', \<lparr> qqMessage = inboundQQ, pending_timestamp = 7000 \<rparr>)],
       enqueuedTasks = [], adminErrorReports = 0, hung = False \<rparr>"

definition allDelivered :: "nat \<Rightarrow> EnqueueOutcome" where
  "allDelivered i = TaskResolved"

definition runnerStopped :: "nat \<Rightarrow> EnqueueOutcome" where
  "runnerStopped i = NeverSettles"

text \<open>Reply decisions: one whose first string is a single space, one with two plain
  strings, one whose first string is an ideographic space (U+3000) and whose second
  string is 1001 Chinese characters long.\<close>

definition blankAndHi :: "jsstring list" where
  "blankAndHi = [str '' '', str ''hi'']"

definition twoReplies :: "jsstring list" where
  "twoReplies = [str ''one'', str ''two'']"

definition wideBlankAndLong :: "jsstring list" where
  "wideBlankAndLong = [[12288], replicate 1001 20013]"

section \<open>Properties of the stamina controller\<close>

lemma update_inv:
  assumes "stamina_inv s"
  shows "stamina_inv (update intensity dt s)"
proof (cases "restMode (config s)")
  case True
  then show ?thesis using assms by (simp add: update_def stamina_inv_def Let_def)
next
  case False
  have "0 \<le> maxStamina (config s)" using assms by (simp add: stamina_inv_def)
  then show ?thesis using False by (simp add: update_def stamina_inv_def Let_def)
qed

lemma config_update [simp]: "config (update intensity dt s) = config s"
  by (simp add: update_def Let_def)

lemma stamina_inv_lastUpdateTime [simp]:
  "stamina_inv (s\<lparr> lastUpdateTime := t \<rparr>) = stamina_inv s"
  by (simp add: stamina_inv_def)

lemma stamina_inv_lastReplyTime [simp]:
  "stamina_inv (s\<lparr> lastReplyTime := t \<rparr>) = stamina_inv s"
  by (simp add: stamina_inv_def)

lemma backgroundTick_inv: "stamina_inv s \<Longrightarrow> stamina_inv (backgroundTick now s)"
  by (simp add: backgroundTick_def Let_def update_inv)

lemma consumeStamina_inv: "stamina_inv s \<Longrightarrow> stamina_inv (snd (consumeStamina n now s))"
  by (simp add: consumeStamina_def Let_def update_inv)

lemma setStamina_inv: "stamina_inv s \<Longrightarrow> stamina_inv (setStamina v s)"
  by (simp add: setStamina_def stamina_inv_def)

lemma initial_state_values:
  "currentStamina (newStaminaManager defaultStaminaConfig 0) = 100"
  "momentum (newStaminaManager defaultStaminaConfig 0) = 0"
  "config (newStaminaManager defaultStaminaConfig 0) = defaultStaminaConfig"
  by (simp_all add: newStaminaManager_def defaultStaminaConfig_def)

lemma initial_state_inv: "stamina_inv (newStaminaManager defaultStaminaConfig 0)"
  by (simp add: stamina_inv_def newStaminaManager_def defaultStaminaConfig_def)

text \<open>
  Claim C2 (as the code has it).  Outside rest mode one update step with intensity \<open>I\<close>
  over \<open>dt\<close> seconds computes, in order: the new momentum
  \<open>max(0, momentum\<cdot>(1 \<midarrow> \<beta>\<cdot>dt) + \<alpha>\<cdot>I\<cdot>dt)\<close>; the consumption \<open>k\<cdot>I^p\<cdot>dt\<close>, which is
  subtracted from the stamina at once; the recovery
  \<open>(r\<cdot>(1 \<midarrow> current/S_max) \<midarrow> \<gamma>\<cdot>momentum)\<cdot>dt\<close>, where \<open>current\<close> is the stamina after this
  step's consumption and \<open>momentum\<close> is the new momentum; and the clamp of the sum to
  \<open>[0, S_max]\<close>.  In rest mode only the momentum decays.
\<close>

theorem update_step_formula:
  "(if restMode (config s) then
      momentum (update I dt s) = max 0 (momentum s * (1 - beta (config s) * dt)) \<and>
      currentStamina (update I dt s) = currentStamina s
    else
      (let c = config s;
           m = max 0 (momentum s * (1 - beta c * dt) + alpha c * I * dt);
           consume = cfg_k c * Math_pow I (cfg_p c) * dt;
           cur = currentStamina s - consume;
           recover = (regenRate c * (1 - cur / maxStamina c) - gamma c * m) * dt
       in momentum (update I dt s) = m \<and>
          currentStamina (update I dt s) = max 0 (min (cur + recover) (maxStamina c))))"
  by (simp add: update_def Let_def)

theorem update_step_formula_witness:
  "momentum (update 10 1 (newStaminaManager defaultStaminaConfig 0)) = 5 \<and>
   currentStamina (update 10 1 (newStaminaManager defaultStaminaConfig 0)) = 177 / 2"
  using update_step_formula [of "newStaminaManager defaultStaminaConfig 0" 10 1]
  by (simp add: newStaminaManager_def defaultStaminaConfig_def Math_pow_def Let_def)

text \<open>
  Claim C2 as stated fails: with the default parameters, full stamina and a batch of ten
  messages, the code's recovery term reads the stamina after consumption (90), not the
  value from before the step (100), and the step ends at 88.5 where the formula of the
  specification gives 88.
\<close>

theorem update_recover_term_counterexample:
  "currentStamina (update 10 1 (newStaminaManager defaultStaminaConfig 0)) = 177 / 2 \<and>
   currentStamina (spec_update 10 1 (newStaminaManager defaultStaminaConfig 0)) = 88"
  by (simp add: update_def spec_update_def newStaminaManager_def defaultStaminaConfig_def
      Math_pow_def Let_def)

text \<open>
  Claim C7.  For a positive capacity \<open>S_max\<close>, the bounds \<open>current \<in> [0, S_max]\<close> and
  \<open>momentum \<ge> 0\<close> hold for the state the constructor builds, and they are preserved by
  every operation of the manager that writes the state: the update step itself (rest
  mode or not), the background tick (intensity 0), \<open>consumeStamina\<close>, \<open>setStamina\<close> and
  an update in rest mode.  The intensities are those the manager is run with, \<open>0\<close> or a
  message count, and the exponent \<open>p\<close> is not negative (the constructor sets it to 1):
  there the real numbers of the model are the finite numbers of the code.  No operation
  changes the capacity or the exponent.
\<close>

theorem stamina_bounds_preserved:
  "(0 < maxStamina c \<longrightarrow> stamina_inv (newStaminaManager c started)) \<and>
   (stamina_inv s \<and> 0 < maxStamina (config s) \<and> 0 \<le> cfg_p (config s) \<and> 0 \<le> I \<and> 0 \<le> n \<longrightarrow>
      stamina_inv (update I dt s) \<and>
      stamina_inv (backgroundTick now s) \<and>
      stamina_inv (snd (consumeStamina n now s)) \<and>
      stamina_inv (setStamina v s) \<and>
      stamina_inv (update I dt (setRestMode True s)) \<and>
      config (update I dt s) = config s \<and>
      config (backgroundTick now s) = config s \<and>
      config (snd (consumeStamina n now s)) = config s \<and>
      config (setStamina v s) = config s)"
proof -
  have init: "stamina_inv (newStaminaManager c started)" if "0 < maxStamina c"
    using that by (simp add: stamina_inv_def newStaminaManager_def)
  have rest: "stamina_inv (setRestMode True s)" if "stamina_inv s"
    using that by (simp add: setRestMode_def stamina_inv_def)
  have cfg: "config (backgroundTick now s) = config s"
    "config (snd (consumeStamina n now s)) = config s"
    "config (setStamina v s) = config s"
    by (simp_all add: backgroundTick_def consumeStamina_def setStamina_def Let_def)
  show ?thesis
    using init rest cfg
    by (simp add: update_inv backgroundTick_inv consumeStamina_inv setStamina_inv)
qed

theorem stamina_bounds_preserved_witness:
  "stamina_inv (newStaminaManager defaultStaminaConfig 0) \<and>
   stamina_inv (update 10 1 (newStaminaManager defaultStaminaConfig 0)) \<and>
   stamina_inv (backgroundTick 1000 (newStaminaManager defaultStaminaConfig 0)) \<and>
   stamina_inv (snd (consumeStamina 3 1000 (newStaminaManager defaultStaminaConfig 0))) \<and>
   stamina_inv (setStamina 250 (newStaminaManager defaultStaminaConfig 0)) \<and>
   stamina_inv (update 10 1 (setRestMode True (newStaminaManager defaultStaminaConfig 0)))"
proof -
  have h: "0 < maxStamina defaultStaminaConfig" "0 \<le> cfg_p defaultStaminaConfig"
    by (simp_all add: defaultStaminaConfig_def)
  have c: "config (newStaminaManager defaultStaminaConfig 0) = defaultStaminaConfig"
    by (simp add: newStaminaManager_def)
  show ?thesis
    using stamina_bounds_preserved [where c = defaultStaminaConfig and started = 0
        and s = "newStaminaManager defaultStaminaConfig 0" and I = 10 and dt = 1 and now = 1000
        and n = 3 and v = 250] h c
    by simp
qed

section \<open>Properties of the credential pool\<close>

lemma Map_get_Map_set_same [simp]: "Map_get (Map_set k v m) k = Some v"
  by (induction m) (auto simp: Map_get_def)

lemma Map_get_Map_set_other [simp]: "k' \<noteq> k \<Longrightarrow> Map_get (Map_set k v m) k' = Map_get m k'"
  by (induction m) (auto simp: Map_get_def)

lemma Map_get_clean:
  "Map_get (keyStatus (cleanExpiredBlocks now s)) k = map_option (cleanStatus now) (Map_get (keyStatus s) k)"
  by (simp add: cleanExpiredBlocks_def Map_get_def map_of_map)

lemma apiKeys_clean [simp]: "apiKeys (cleanExpiredBlocks now s) = apiKeys s"
  by (simp add: cleanExpiredBlocks_def)

lemma currentKeyIndex_clean [simp]: "currentKeyIndex (cleanExpiredBlocks now s) = currentKeyIndex s"
  by (simp add: cleanExpiredBlocks_def)

lemma cleanStatus_within: "blockedWithinHour now st \<Longrightarrow> cleanStatus now st = st"
  by (auto simp: blockedWithinHour_def cleanStatus_def split: option.splits)

lemma clean_all_within:
  assumes "\<forall>e \<in> set (keyStatus s). blockedWithinHour now (snd e)"
  shows "keyStatus (cleanExpiredBlocks now s) = keyStatus s"
proof -
  have "map (\<lambda>(k, st). (k, cleanStatus now st)) (keyStatus s) = map (\<lambda>e. e) (keyStatus s)"
    using assms by (intro map_cong) (auto simp: cleanStatus_within)
  then show ?thesis by (simp add: cleanExpiredBlocks_def)
qed

lemma fold_earliest:
  assumes "\<forall>e \<in> set xs. isBlocked (snd e) \<and> truthyTime (blockStartTime (snd e))"
  shows "(if xs = [] then fold earliestStep xs (None, None) = (None, None)
          else (\<exists>k st t. fold earliestStep xs (None, None) = (Some k, Some t) \<and>
                  (k, st) \<in> set xs \<and> blockStartTime st = Some t \<and>
                  (\<forall>e \<in> set xs. t \<le> the (blockStartTime (snd e)))))"
  using assms
proof (induction xs rule: rev_induct)
  case Nil
  then show ?case by simp
next
  case (snoc x xs)
  obtain kx sx where x: "x = (kx, sx)" by (cases x)
  from snoc.prems obtain tx where tx: "blockStartTime sx = Some tx" "isBlocked sx" "tx \<noteq> 0"
    by (auto simp: x truthyTime_def split: option.splits)
  show ?case
  proof (cases "xs = []")
    case True
    then show ?thesis using tx by (simp add: x earliestStep_def truthyTime_def)
  next
    case False
    with snoc obtain k st t where acc: "fold earliestStep xs (None, None) = (Some k, Some t)"
      "(k, st) \<in> set xs" "blockStartTime st = Some t"
      "\<forall>e \<in> set xs. t \<le> the (blockStartTime (snd e))"
      by auto
    show ?thesis
    proof (cases "tx < t")
      case True
      have "fold earliestStep (xs @ [x]) (None, None) = (Some kx, Some tx)"
        using acc(1) tx True by (simp add: x earliestStep_def truthyTime_def)
      moreover have "\<forall>e \<in> set (xs @ [x]). tx \<le> the (blockStartTime (snd e))"
        using acc(4) True tx by (auto simp: x)
      ultimately show ?thesis using tx x by auto
    next
      case ge: False
      have "fold earliestStep (xs @ [x]) (None, None) = (Some k, Some t)"
        using acc(1) tx ge by (simp add: x earliestStep_def truthyTime_def)
      moreover have "\<forall>e \<in> set (xs @ [x]). t \<le> the (blockStartTime (snd e))"
        using acc(4) ge tx by (auto simp: x)
      ultimately show ?thesis using acc(2,3) by auto
    qed
  qed
qed

lemma pool_wf_keys: "pool_wf s \<Longrightarrow> set (apiKeys s) = fst ` set (keyStatus s)"
  by (metis pool_wf_def set_map)

lemma index_reachable:
  assumes "j < n"
  shows "j \<in> set (map (\<lambda>i. (c + i) mod n) [0..<n])"
proof -
  let ?i = "(j + n - c mod n) mod n"
  have n: "0 < n" using assms by simp
  then have "?i < n" by simp
  moreover have "(c + ?i) mod n = j"
  proof -
    have "(c + ?i) mod n = (c mod n + (j + n - c mod n)) mod n"
      by (metis mod_add_eq mod_mod_trivial)
    also have "c mod n + (j + n - c mod n) = j + n"
      using n by (simp add: less_imp_le_nat trans_le_add2)
    also have "(j + n) mod n = j" using assms by simp
    finally show ?thesis .
  qed
  ultimately show ?thesis by (force simp: image_iff)
qed

lemma map_fst_Map_set: "k \<in> fst ` set m \<Longrightarrow> map fst (Map_set k v m) = map fst m"
  by (induction m) force+

lemma set_Map_set: "set (Map_set k v m) \<subseteq> insert (k, v) (set m)"
  by (induction m) (auto split: if_splits)

lemma Map_get_in_keys: "Map_get m k = Some v \<Longrightarrow> k \<in> fst ` set m"
  by (auto simp: Map_get_def dest!: map_of_SomeD intro: rev_image_eqI)

lemma Map_get_in_set: "Map_get m k = Some v \<Longrightarrow> (k, v) \<in> set m"
  by (auto simp: Map_get_def dest!: map_of_SomeD)

lemma apiKeys_switchToNextKey [simp]: "apiKeys (switchToNextKey s) = apiKeys s"
  by (simp add: switchToNextKey_def Let_def split: option.splits)

lemma keyStatus_switchToNextKey [simp]: "keyStatus (switchToNextKey s) = keyStatus s"
  by (simp add: switchToNextKey_def Let_def split: option.splits)

lemma pool_wf_switchToNextKey: "pool_wf s \<Longrightarrow> pool_wf (switchToNextKey s)"
  by (simp add: pool_wf_def)

lemma pool_wf_Map_set:
  assumes wf: "pool_wf s" and g: "Map_get (keyStatus s) k = Some st"
    and b: "isBlocked st' \<longrightarrow> (\<exists>t. blockStartTime st' = Some t \<and> 0 < t)"
    and c: "MAX_ERRORS_IN_WINDOW \<le> errorCount st' \<longrightarrow> isBlocked st'"
  shows "pool_wf (s\<lparr> keyStatus := Map_set k st' (keyStatus s) \<rparr>)"
proof -
  have "map fst (Map_set k st' (keyStatus s)) = map fst (keyStatus s)"
    using g by (intro map_fst_Map_set Map_get_in_keys)
  moreover have "\<forall>e \<in> set (Map_set k st' (keyStatus s)).
        (isBlocked (snd e) \<longrightarrow> (\<exists>t. blockStartTime (snd e) = Some t \<and> 0 < t)) \<and>
        (MAX_ERRORS_IN_WINDOW \<le> errorCount (snd e) \<longrightarrow> isBlocked (snd e))"
  proof
    fix e assume "e \<in> set (Map_set k st' (keyStatus s))"
    then have "e = (k, st') \<or> e \<in> set (keyStatus s)" using set_Map_set by fastforce
    then show "(isBlocked (snd e) \<longrightarrow> (\<exists>t. blockStartTime (snd e) = Some t \<and> 0 < t)) \<and>
        (MAX_ERRORS_IN_WINDOW \<le> errorCount (snd e) \<longrightarrow> isBlocked (snd e))"
      using b c wf by (auto simp: pool_wf_def)
  qed
  ultimately show ?thesis using wf by (simp add: pool_wf_def)
qed

lemma pool_wf_blockApiKey:
  assumes "pool_wf s" "0 < now"
  shows "pool_wf (blockApiKey k now s)"
proof (cases "Map_get (keyStatus s) k")
  case None
  then show ?thesis using assms by (simp add: blockApiKey_def)
next
  case (Some st)
  have "pool_wf (s\<lparr> keyStatus := Map_set k (st\<lparr> isBlocked := True, blockStartTime := Some now \<rparr>) (keyStatus s) \<rparr>)"
    using assms Some by (intro pool_wf_Map_set) auto
  then show ?thesis using Some by (simp add: blockApiKey_def Let_def pool_wf_switchToNextKey)
qed

lemma pool_wf_recordError:
  assumes wf: "pool_wf s" and pos: "0 < nowBlock"
  shows "pool_wf (recordError toLowerCase k e now nowBlock s)"
proof (cases "Map_get (keyStatus s) k")
  case None
  then show ?thesis using wf by (simp add: recordError_def)
next
  case (Some st)
  show ?thesis
  proof (cases "is429Error toLowerCase e")
    case False
    then show ?thesis using wf Some by (simp add: recordError_def)
  next
    case True
    define st1 where "st1 = (if now - lastErrorTime st > ERROR_WINDOW_MS then st\<lparr> errorCount := 0 \<rparr> else st)"
    define st2 where "st2 = st1\<lparr> errorCount := errorCount st1 + 1, lastErrorTime := now \<rparr>"
    define s1 where "s1 = s\<lparr> keyStatus := Map_set k st2 (keyStatus s) \<rparr>"
    have r: "recordError toLowerCase k e now nowBlock s =
          (if errorCount st2 \<ge> MAX_ERRORS_IN_WINDOW then blockApiKey k nowBlock s1 else s1)"
      using Some True by (simp add: recordError_def Let_def st1_def st2_def s1_def)
    have stwf: "isBlocked st \<longrightarrow> (\<exists>t. blockStartTime st = Some t \<and> 0 < t)"
      using wf Map_get_in_set [OF Some] by (force simp: pool_wf_def)
    show ?thesis
    proof (cases "errorCount st2 \<ge> MAX_ERRORS_IN_WINDOW")
      case False
      have "pool_wf s1" unfolding s1_def
        using wf Some stwf False by (intro pool_wf_Map_set) (auto simp: st2_def st1_def)
      then show ?thesis using r False by simp
    next
      case big: True
      let ?st3 = "st2\<lparr> isBlocked := True, blockStartTime := Some nowBlock \<rparr>"
      have g1: "Map_get (keyStatus s1) k = Some st2" by (simp add: s1_def)
      have "keyStatus (blockApiKey k nowBlock s1) = Map_set k ?st3 (keyStatus s1)"
        using g1 by (simp add: blockApiKey_def Let_def)
      have eq: "Map_set k ?st3 (Map_set k st2 m) = Map_set k ?st3 m" for m
        by (induction m) auto
      have "pool_wf (s\<lparr> keyStatus := Map_set k ?st3 (keyStatus s) \<rparr>)"
        using wf Some pos by (intro pool_wf_Map_set) auto
      then have "pool_wf (s1\<lparr> keyStatus := Map_set k ?st3 (keyStatus s1) \<rparr>)"
        by (simp add: s1_def eq)
      then have "pool_wf (blockApiKey k nowBlock s1)"
        using g1 by (simp add: blockApiKey_def Let_def pool_wf_switchToNextKey)
      then show ?thesis using r big by simp
    qed
  qed
qed

lemma pool_wf_clean: "pool_wf s \<Longrightarrow> pool_wf (cleanExpiredBlocks now s)"
  by (auto simp: pool_wf_def cleanExpiredBlocks_def cleanStatus_def comp_def case_prod_unfold
      MAX_ERRORS_IN_WINDOW_def)

lemma pool_wf_getCurrentApiKey: "pool_wf s \<Longrightarrow> pool_wf (snd (getCurrentApiKey now s))"
proof -
  assume "pool_wf s"
  then have "pool_wf (cleanExpiredBlocks now s)" by (rule pool_wf_clean)
  moreover have "pool_wf (x\<lparr> currentKeyIndex := i \<rparr>) = pool_wf x" for x i
    by (simp add: pool_wf_def)
  ultimately show ?thesis
    by (simp add: getCurrentApiKey_def Let_def split: option.splits list.splits)
qed

lemma Map_set_new: "k \<notin> fst ` set m \<Longrightarrow> Map_set k v m = m @ [(k, v)]"
  by (induction m) auto

lemma fold_Map_set_distinct:
  "distinct keys \<Longrightarrow> set keys \<inter> fst ` set m = {} \<Longrightarrow>
   fold (\<lambda>k m. Map_set k v m) keys m = m @ map (\<lambda>k. (k, v)) keys"
proof (induction keys arbitrary: m)
  case Nil
  then show ?case by simp
next
  case (Cons k keys)
  have k: "k \<notin> fst ` set m" using Cons.prems(2) by auto
  have "set keys \<inter> fst ` set (m @ [(k, v)]) = {}"
    using Cons.prems by auto
  then show ?case using Cons.IH [of "m @ [(k, v)]"] Cons.prems(1) k
    by (simp add: Map_set_new)
qed

lemma pool_wf_initializeKeys:
  assumes "keys \<noteq> []" "distinct keys" "[] \<notin> set keys"
  shows "\<exists>s. initializeKeys keys = Inr s \<and> pool_wf s"
proof -
  have "fold (\<lambda>k m. Map_set k freshStatus m) keys [] = map (\<lambda>k. (k, freshStatus)) keys"
    using fold_Map_set_distinct [of keys "[]" freshStatus] assms(2) by simp
  then show ?thesis using assms
    by (simp add: initializeKeys_def pool_wf_def comp_def freshStatus_def MAX_ERRORS_IN_WINDOW_def)
qed

lemma pool_wf_twoKeys: "pool_wf twoKeys"
  by (simp add: pool_wf_def twoKeys_def freshStatus_def MAX_ERRORS_IN_WINDOW_def)

lemma keyStatus_blockApiKey:
  "Map_get (keyStatus s) k = Some st \<Longrightarrow>
   keyStatus (blockApiKey k now s) =
     Map_set k (st\<lparr> isBlocked := True, blockStartTime := Some now \<rparr>) (keyStatus s)"
  by (simp add: blockApiKey_def Let_def)

text \<open>
  What \<open>recordError\<close> does on a rate-limit failure of a known credential: the count is
  reset exactly when more than five minutes have passed since the previous counted
  failure (\<open>lastErrorTime\<close>), then it is incremented and \<open>lastErrorTime\<close> becomes \<open>now\<close>;
  at five the credential is blocked.
\<close>

lemma recordError_counts:
  "Map_get (keyStatus s) k = Some st \<Longrightarrow> is429Error toLowerCase e \<Longrightarrow>
   (let base = (if now - lastErrorTime st > 5 * 60 * 1000 then 0 else errorCount st);
        st' = the (Map_get (keyStatus (recordError toLowerCase k e now nowBlock s)) k)
    in errorCount st' = base + 1 \<and> lastErrorTime st' = now \<and>
       (if base + 1 \<ge> 5 then isBlocked st' \<and> blockStartTime st' = Some nowBlock
        else isBlocked st' = isBlocked st \<and> blockStartTime st' = blockStartTime st))"
  by (simp add: recordError_def Let_def keyStatus_blockApiKey ERROR_WINDOW_MS_def
      MAX_ERRORS_IN_WINDOW_def)

text \<open>
  Claim C5.  The claim has the error window reset when five minutes have passed since
  the first error of the window, so that a credential is blocked by five rate-limit
  failures within five minutes; the comments, the log text and the documentation of the
  key manager say the same (``at most 5 errors within 5 minutes'', ``5-minute sliding
  window'').  The code resets the count only when more than five minutes have passed
  since the \<^emph>\<open>previous\<close> failure.  Five HTTP-429 failures of key A, each four minutes after
  the one before, span sixteen minutes; no five-minute window holds more than two of
  them, and the window of the specification never counts more than two; the code counts
  five and blocks the key for an hour.
\<close>

theorem recordError_blocks_spaced_errors:
  "map (errorsInWindow spacedErrorTimes) spacedErrorTimes = [1, 2, 2, 2, 2] \<and>
   Map_get (keyStatus afterSpacedErrors) ''A'' =
     Some \<lparr> isBlocked = True, errorCount = 5, lastErrorTime = 1960000,
            blockStartTime = Some 1960000 \<rparr> \<and>
   spec_errorCount (fold spec_reportRateLimited spacedErrorTimes spec_freshCredential) = 1 \<and>
   spec_blockedAt (fold spec_reportRateLimited spacedErrorTimes spec_freshCredential) = None"
  by (simp add: errorsInWindow_def spacedErrorTimes_def afterSpacedErrors_def recordError_def
      blockApiKey_def switchToNextKey_def getAvailableKeysCount_def keyAvailable_def
      twoKeys_def freshStatus_def error429_def is429Error_def Map_get_def Let_def
      ERROR_WINDOW_MS_def MAX_ERRORS_IN_WINDOW_def spec_reportRateLimited_def
      spec_freshCredential_def)

text \<open>
  Claim C6.  In a well-formed pool, let \<open>k\<close> be a blocked credential (five or more counted
  errors, block time \<open>t\<close> set) with \<open>now \<midarrow> t \<le> 1 hour\<close>.  Then \<open>getCurrentApiKey\<close> does
  not return \<open>k\<close>, unless every credential of the pool is blocked and within its hour;
  in that case the credential returned is one with the earliest block time.
\<close>

theorem getCurrentApiKey_skips_blocked:
  assumes wf: "pool_wf s"
    and k: "Map_get (keyStatus s) k = Some st" "MAX_ERRORS_IN_WINDOW \<le> errorCount st"
           "blockStartTime st = Some t" "now - t \<le> BLOCK_DURATION_MS"
  shows "(if \<forall>e \<in> set (keyStatus s). blockedWithinHour now (snd e)
          then \<exists>k' st'. fst (getCurrentApiKey now s) = Some k' \<and>
                 Map_get (keyStatus s) k' = Some st' \<and>
                 (\<forall>e \<in> set (keyStatus s). the (blockStartTime st') \<le> the (blockStartTime (snd e)))
          else fst (getCurrentApiKey now s) \<noteq> Some k)"
proof (cases "\<forall>e \<in> set (keyStatus s). blockedWithinHour now (snd e)")
  case True
  let ?n = "length (apiKeys s)"
  have ks: "keyStatus (cleanExpiredBlocks now s) = keyStatus s"
    using True by (rule clean_all_within)
  have dist: "distinct (map fst (keyStatus s))" using wf by (simp add: pool_wf_def)
  have noavail: "\<not> keyAvailable (cleanExpiredBlocks now s) idx" for idx
  proof
    assume "keyAvailable (cleanExpiredBlocks now s) idx"
    then obtain st' where "map_of (keyStatus s) (apiKeys s ! idx) = Some st'" "\<not> isBlocked st'"
      by (auto simp: keyAvailable_def ks Map_get_def split: option.splits)
    then have "(apiKeys s ! idx, st') \<in> set (keyStatus s)" "\<not> isBlocked st'"
      by (auto dest: map_of_SomeD)
    with True show False by (force simp: blockedWithinHour_def)
  qed
  have findNone: "find (keyAvailable (cleanExpiredBlocks now s))
                    (map (\<lambda>i. (currentKeyIndex s + i) mod ?n) [0..<?n]) = None"
    by (simp add: find_None_iff noavail)
  have ne: "keyStatus s \<noteq> []" using wf by (auto simp: pool_wf_def)
  have allb: "\<forall>e \<in> set (keyStatus s). isBlocked (snd e) \<and> truthyTime (blockStartTime (snd e))"
    using True wf by (fastforce simp: blockedWithinHour_def pool_wf_def truthyTime_def)
  from fold_earliest [OF allb] ne obtain k' st' t' where
    e: "fold earliestStep (keyStatus s) (None, None) = (Some k', Some t')"
       "(k', st') \<in> set (keyStatus s)" "blockStartTime st' = Some t'"
       "\<forall>e \<in> set (keyStatus s). t' \<le> the (blockStartTime (snd e))"
    by auto
  have "k' \<in> set (apiKeys s)" using e(2) pool_wf_keys [OF wf] by force
  then have k'ne: "k' \<noteq> []" using wf by (auto simp: pool_wf_def)
  have get: "Map_get (keyStatus s) k' = Some st'"
    using e(2) dist by (simp add: Map_get_def)
  have "fst (getCurrentApiKey now s) = Some k'"
    using findNone e(1) k'ne
    by (simp add: getCurrentApiKey_def Let_def getEarliestBlockedKey_def ks)
  then show ?thesis using True get e(3,4) by auto
next
  case False
  let ?s1 = "cleanExpiredBlocks now s"
  let ?n = "length (apiKeys s)"
  have blocked: "isBlocked st" using wf k(1,2)
    by (auto simp: pool_wf_def Map_get_def dest!: map_of_SomeD)
  have kst: "Map_get (keyStatus ?s1) k = Some st"
    using k blocked by (simp add: Map_get_clean cleanStatus_def)
  from False obtain k2 st2 where e2: "(k2, st2) \<in> set (keyStatus s)" "\<not> blockedWithinHour now st2"
    by auto
  have dist: "distinct (map fst (keyStatus s))" using wf by (simp add: pool_wf_def)
  have "\<not> isBlocked (cleanStatus now st2)"
  proof (cases "isBlocked st2")
    case True
    then obtain t2 where "blockStartTime st2 = Some t2" "0 < t2"
      using wf e2(1) by (force simp: pool_wf_def)
    then show ?thesis using e2(2) True
      by (simp add: cleanStatus_def blockedWithinHour_def truthyTime_def)
  next
    case False
    then show ?thesis by (simp add: cleanStatus_def)
  qed
  moreover have "Map_get (keyStatus s) k2 = Some st2"
    using e2(1) dist by (simp add: Map_get_def)
  then have "Map_get (keyStatus ?s1) k2 = Some (cleanStatus now st2)"
    by (simp add: Map_get_clean)
  moreover note this
  moreover have "k2 \<in> set (apiKeys s)" using e2(1) pool_wf_keys [OF wf] by force
  then obtain j where j: "j < ?n" "apiKeys s ! j = k2" by (auto simp: in_set_conv_nth)
  ultimately have av: "keyAvailable ?s1 j" by (simp add: keyAvailable_def)
  have "j \<in> set (map (\<lambda>i. (currentKeyIndex s + i) mod ?n) [0..<?n])"
    using j(1) by (rule index_reachable)
  with av obtain idx where f: "find (keyAvailable ?s1)
       (map (\<lambda>i. (currentKeyIndex s + i) mod ?n) [0..<?n]) = Some idx"
    by (cases "find (keyAvailable ?s1) (map (\<lambda>i. (currentKeyIndex s + i) mod ?n) [0..<?n])")
       (auto simp: find_None_iff)
  then have "keyAvailable ?s1 idx" by (auto simp: find_Some_iff)
  then have "apiKeys s ! idx \<noteq> k" using kst blocked by (auto simp: keyAvailable_def)
  moreover have "fst (getCurrentApiKey now s) = Some (apiKeys s ! idx)"
    using f by (simp add: getCurrentApiKey_def Let_def)
  ultimately show ?thesis using False by auto
qed

theorem getCurrentApiKey_skips_blocked_witness:
  "fst (getCurrentApiKey 2000 poolABlocked) \<noteq> Some ''A'' \<and>
   fst (getCurrentApiKey 4000 poolBothBlocked) = Some ''B''"
proof -
  have wf1: "pool_wf poolABlocked"
    by (simp add: pool_wf_def poolABlocked_def freshStatus_def MAX_ERRORS_IN_WINDOW_def)
  have wf2: "pool_wf poolBothBlocked"
    by (simp add: pool_wf_def poolBothBlocked_def MAX_ERRORS_IN_WINDOW_def)
  have a: "fst (getCurrentApiKey 2000 poolABlocked) \<noteq> Some ''A''"
    using getCurrentApiKey_skips_blocked [OF wf1, of "''A''"
        "\<lparr> isBlocked = True, errorCount = 5, lastErrorTime = 1000, blockStartTime = Some 1000 \<rparr>"
        1000 2000]
    by (simp add: poolABlocked_def Map_get_def MAX_ERRORS_IN_WINDOW_def BLOCK_DURATION_MS_def
        blockedWithinHour_def freshStatus_def)
  have "\<exists>k' st'. fst (getCurrentApiKey 4000 poolBothBlocked) = Some k' \<and>
          Map_get (keyStatus poolBothBlocked) k' = Some st' \<and>
          (\<forall>e \<in> set (keyStatus poolBothBlocked).
             the (blockStartTime st') \<le> the (blockStartTime (snd e)))"
    using getCurrentApiKey_skips_blocked [OF wf2, of "''A''"
        "\<lparr> isBlocked = True, errorCount = 5, lastErrorTime = 3000, blockStartTime = Some 3000 \<rparr>"
        3000 4000]
    by (simp add: poolBothBlocked_def Map_get_def MAX_ERRORS_IN_WINDOW_def BLOCK_DURATION_MS_def
        blockedWithinHour_def)
  then have b: "fst (getCurrentApiKey 4000 poolBothBlocked) = Some ''B''"
    by (auto simp: poolBothBlocked_def Map_get_def split: if_splits)
  from a b show ?thesis by simp
qed

section \<open>Properties of the message queue\<close>

lemma startsWith_iff: "startsWith s n \<longleftrightarrow> (\<exists>q. s = n @ q)"
  by (induction s n rule: startsWith.induct) auto

lemma includesStr_iff: "includesStr h n \<longleftrightarrow> (\<exists>p q. h = p @ n @ q)"
proof (induction h)
  case Nil
  then show ?case by simp
next
  case (Cons x xs)
  have "(\<exists>p q. x # xs = p @ n @ q) \<longleftrightarrow> (\<exists>q. x # xs = n @ q) \<or> (\<exists>p q. xs = p @ n @ q)"
  proof
    assume "\<exists>p q. x # xs = p @ n @ q"
    then obtain p q where pq: "x # xs = p @ n @ q" by blast
    show "(\<exists>q. x # xs = n @ q) \<or> (\<exists>p q. xs = p @ n @ q)"
    proof (cases p)
      case Nil
      then show ?thesis using pq by auto
    next
      case (Cons a p')
      then show ?thesis using pq by auto
    qed
  next
    assume "(\<exists>q. x # xs = n @ q) \<or> (\<exists>p q. xs = p @ n @ q)"
    then show "\<exists>p q. x # xs = p @ n @ q"
    proof
      assume "\<exists>q. x # xs = n @ q"
      then obtain q where "x # xs = [] @ n @ q" by auto
      then show ?thesis by blast
    next
      assume "\<exists>p q. xs = p @ n @ q"
      then obtain p q where "x # xs = (x # p) @ n @ q" by auto
      then show ?thesis by blast
    qed
  qed
  then show ?case using Cons by (simp add: startsWith_iff)
qed

lemma isHighPriorityMessage_iff:
  "isHighPriorityMessage toLowerCase cfg m \<longleftrightarrow>
     containsAtCI toLowerCase (trim (msg_content m)) (botName cfg) \<or>
     containsCI toLowerCase (trim (msg_content m)) (botName cfg) \<or> msg_type m = CommandMessage"
  by (simp add: isHighPriorityMessage_def Let_def containsCI_def containsAtCI_def includesStr_iff)

text \<open>A content that \<open>createMessage\<close> or \<open>fromQQMessage\<close> has trimmed is its own trim, so
  that for the messages that reach the queue the search is in the content itself.\<close>

lemma dropWhile_trimEnd:
  "dropWhile isWhiteSpace (trimEnd (dropWhile isWhiteSpace s)) = trimEnd (dropWhile isWhiteSpace s)"
proof (cases "trimEnd (dropWhile isWhiteSpace s)")
  case Nil
  then show ?thesis by simp
next
  case (Cons a r)
  define d where "d = dropWhile isWhiteSpace s"
  have "rev (dropWhile isWhiteSpace (rev d)) = a # r" using Cons by (simp add: trimEnd_def d_def)
  then have "dropWhile isWhiteSpace (rev d) = rev r @ [a]" by (metis rev.simps(2) rev_rev_ident)
  moreover have "dropWhile isWhiteSpace (rev d) \<noteq> []" using calculation by simp
  ultimately have dne: "d \<noteq> []" by auto
  have "\<exists>zs. rev d = zs @ dropWhile isWhiteSpace (rev d)"
    by (metis takeWhile_dropWhile_id)
  then obtain zs where "rev d = zs @ rev r @ [a]"
    using \<open>dropWhile isWhiteSpace (rev d) = rev r @ [a]\<close> by auto
  then have "d = a # r @ rev zs" by (metis append_Cons append_Nil rev.simps(2) rev_append rev_rev_ident append_assoc)
  then have "hd d = a" by simp
  moreover have "\<not> isWhiteSpace (hd d)" using dne unfolding d_def by (simp add: hd_dropWhile)
  ultimately show ?thesis using Cons by (simp add: d_def)
qed

lemma trim_idem: "trim (trim s) = trim s"
proof -
  define t where "t = trimEnd (dropWhile isWhiteSpace s)"
  have a: "dropWhile isWhiteSpace t = t" unfolding t_def by (rule dropWhile_trimEnd)
  have "dropWhile isWhiteSpace (rev t) = rev t"
  proof (cases "rev t")
    case Nil
    then show ?thesis by simp
  next
    case (Cons b u)
    have "rev t = dropWhile isWhiteSpace (rev (dropWhile isWhiteSpace s))"
      by (simp add: t_def trimEnd_def)
    then have "\<not> isWhiteSpace (hd (rev t))" using Cons by (metis hd_dropWhile list.distinct(1))
    then show ?thesis using Cons by simp
  qed
  then have "trimEnd t = t" by (simp add: trimEnd_def)
  then show ?thesis using a by (simp add: trim_def t_def [symmetric])
qed

lemma isHighPriorityMessage_trimmed:
  assumes "msg_content m = trim raw"
    and "containsAtCI toLowerCase (msg_content m) (botName cfg) \<or>
         containsCI toLowerCase (msg_content m) (botName cfg) \<or> msg_type m = CommandMessage"
  shows "isHighPriorityMessage toLowerCase cfg m"
  using assms by (simp add: isHighPriorityMessage_iff trim_idem)

lemma canReply_fullStamina: "canReply fullStamina"
  by (simp add: canReply_def fullStamina_def newStaminaManager_def defaultStaminaConfig_def
      Math_pow_def)

lemma not_canReply_exhausted: "\<not> canReply exhaustedStamina"
  by (simp add: canReply_def exhaustedStamina_def setStamina_def newStaminaManager_def
      defaultStaminaConfig_def Math_pow_def)

lemma level_exhausted: "level (getStatus exhaustedStamina) = Critical"
  by (simp add: getStatus_def calculateLevel_def exhaustedStamina_def setStamina_def
      newStaminaManager_def defaultStaminaConfig_def Let_def)

lemma mention_contains:
  "containsAtCI asciiToLowerCase (trim (msg_content mentionMessage)) (botName defaultQueueConfig)"
proof -
  have "includesStr (asciiToLowerCase (trim (msg_content mentionMessage)))
          (str ''@'' @ asciiToLowerCase (botName defaultQueueConfig))"
    by (simp add: mentionMessage_def defaultQueueConfig_def trim_def trimEnd_def isWhiteSpace_def
      asciiToLowerCase_def asciiLowerUnit_def str_def)
  then show ?thesis by (simp add: containsAtCI_def includesStr_iff)
qed

lemma queueStateOf_idle:
  "queueStateOf idleManager ''conv_c1'' =
     Some \<lparr> messages = [helloQueued], silenceTimer = Some 8000, isProcessing = False,
            lastFlushTime = None, lastFlushReason = None \<rparr>"
  by (simp add: queueStateOf_def idleManager_def Map_get_def)

lemma queueStateOf_busy:
  "queueStateOf busyManager ''conv_c1'' =
     Some \<lparr> messages = [helloQueued], silenceTimer = Some 8000, isProcessing = True,
            lastFlushTime = None, lastFlushReason = None \<rparr>"
  by (simp add: queueStateOf_def busyManager_def Map_get_def)

text \<open>
  Claim C10.  When a flush reaches the stamina check (the context exists and its queue
  is not empty), \<open>canReply()\<close> is false and the stamina level is critical, the queued
  messages are dropped and the flush returns \<open>{processed: false, reason:
  stamina_insufficient}\<close> with \<open>messageCount = 0\<close> and an empty \<open>messages\<close> list: both are
  computed from the queue after it was drained.
\<close>

theorem flushQueue_critical_drop:
  "queueStateOf s ctx = Some q \<Longrightarrow> messages q \<noteq> [] \<Longrightarrow> \<not> canReply st \<Longrightarrow>
   level (getStatus st) = Critical \<Longrightarrow>
   fst (flushQueue st ctx r s) =
     Returned \<lparr> processed = False, messageCount = 0, response = None, res_error = None,
                reason = stamina_insufficient, res_messages = [], res_contextId = ctx \<rparr> \<and>
   fst (flushQueue st ctx r s) = Returned (notProcessed 0 stamina_insufficient [] ctx) \<and>
   (\<exists>q'. queueStateOf (snd (flushQueue st ctx r s)) ctx = Some q' \<and> messages q' = [])"
  by (auto simp: queueStateOf_def flushQueue_def clearSilenceTimer_def modify_def Let_def
      createMessageLogs_def notProcessed_def)

theorem flushQueue_critical_drop_witness:
  "fst (flushQueue exhaustedStamina ''conv_c1'' silence_trigger idleManager) =
     Returned (notProcessed 0 stamina_insufficient [] ''conv_c1'') \<and>
   (\<exists>q'. queueStateOf (snd (flushQueue exhaustedStamina ''conv_c1'' silence_trigger idleManager))
      ''conv_c1'' = Some q' \<and> messages q' = [])"
  using flushQueue_critical_drop [OF queueStateOf_idle _ not_canReply_exhausted level_exhausted,
      of silence_trigger]
  by (simp add: notProcessed_def)

text \<open>
  Claim C3 (as the code has it).  If a flush is requested for a context whose processing
  flag is true, the flush returns a \<open>{processed: false}\<close> result as a normal value and
  keeps the flag; the queued messages are left unchanged, except when \<open>canReply()\<close> is
  false and the stamina level is critical: the stamina check comes before the processing
  check, and in that case the queued messages are dropped.
\<close>

theorem flushQueue_while_processing:
  "queueStateOf s ctx = Some q \<Longrightarrow> isProcessing q \<Longrightarrow>
   (\<exists>res q'. fst (flushQueue st ctx r s) = Returned res \<and> \<not> processed res \<and>
      queueStateOf (snd (flushQueue st ctx r s)) ctx = Some q' \<and> isProcessing q' \<and>
      messages q' =
        (if messages q \<noteq> [] \<and> \<not> canReply st \<and> level (getStatus st) = Critical then []
         else messages q))"
  by (auto simp: queueStateOf_def flushQueue_def clearSilenceTimer_def modify_def Let_def
      notProcessed_def)

theorem flushQueue_while_processing_witness:
  "\<exists>res q'. fst (flushQueue fullStamina ''conv_c1'' manual_trigger busyManager) = Returned res \<and>
      \<not> processed res \<and>
      queueStateOf (snd (flushQueue fullStamina ''conv_c1'' manual_trigger busyManager))
        ''conv_c1'' = Some q' \<and> isProcessing q' \<and> length (messages q') = 1"
  using flushQueue_while_processing [OF queueStateOf_busy, of fullStamina manual_trigger]
    canReply_fullStamina
  by auto

text \<open>
  Claim C3 as stated fails: a message is queued while a flush of its context is in
  flight; with stamina forced to 0 a second flush drops it.
\<close>

theorem flushQueue_while_processing_counterexample:
  "isProcessing (the (queueStateOf busyManager ''conv_c1'')) \<and>
   length (messages (the (queueStateOf busyManager ''conv_c1''))) = 1 \<and>
   messages (the (queueStateOf
       (snd (flushQueue exhaustedStamina ''conv_c1'' manual_trigger busyManager)) ''conv_c1'')) = []"
  using not_canReply_exhausted level_exhausted
  by (simp add: busyManager_def queueStateOf_def Map_get_def flushQueue_def Let_def
      clearSilenceTimer_def modify_def)

lemma getOrCreateQueue_entry:
  "Map_get (queues (snd (getOrCreateQueue ctx s))) ctx = Some (fst (getOrCreateQueue ctx s)) \<and>
   objects (snd (getOrCreateQueue ctx s)) (fst (getOrCreateQueue ctx s)) =
     (case queueStateOf s ctx of None \<Rightarrow> newQueueState | Some q \<Rightarrow> q) \<and>
   queueConfig (snd (getOrCreateQueue ctx s)) = queueConfig s"
  by (simp add: getOrCreateQueue_def queueStateOf_def split: option.splits)

lemma flushQueueResumed_timers:
  "silenceTimer (objects (snd (snd (flushQueueResumed ctx r queueState batch outcome t1 t2 st s))) ref)
     = silenceTimer (objects s ref)"
  by (cases outcome) (simp_all add: flushQueueResumed_def modify_def Let_def)

text \<open>
  Claim C8 (as the code has it).  Enqueueing a message whose content contains
  \<open>@<botName>\<close> or \<open>botName\<close>, case-insensitively, or whose kind is command marks it
  \<open>isHighPriority\<close> and at once runs the flush of its context with reason
  \<open>high_priority\<close>.  The code compares after \<open>toLowerCase\<close> of both sides and looks into
  the trimmed content; the messages that reach the queue carry their content trimmed, so
  that for them this is the content itself.  If the stamina check passes and no flush
  of the context is in flight, the flush hands the whole queue, ending with the
  just-enqueued message, to the processor and suspends; otherwise it returns
  \<open>{processed: false}\<close> and hands over no batch.  The enqueue never arms or resets a
  silence timer: its synchronous part leaves the timer of the context cancelled, and
  its resumption, once the processor has answered or failed, leaves the timer of every
  queue as it finds it.
\<close>

theorem addMessage_high_priority:
  assumes hp: "containsAtCI toLowerCase (trim (msg_content m)) (botName (queueConfig s)) \<or>
               containsCI toLowerCase (trim (msg_content m)) (botName (queueConfig s)) \<or>
               msg_type m = CommandMessage"
  shows "(let ctx = getContextId m;
              qm = convertToQueuedMessage toLowerCase (queueConfig s) m ctx now;
              old = (case queueStateOf s ctx of None \<Rightarrow> newQueueState | Some q \<Rightarrow> q);
              res = addMessage toLowerCase st m now nowCheck s
          in isHighPriority qm \<and>
             (\<exists>queueState.
                Map_get (queues (snd res)) ctx = Some queueState \<and>
                silenceTimer (objects (snd res) queueState) = None \<and>
                (if canReply st \<and> \<not> isProcessing old
                 then fst res =
                        Some (Awaiting queueState high_priority_trigger (messages old @ [qm]))
                 else \<exists>r. fst res = Some (Returned r) \<and> \<not> processed r)) \<and>
             (\<forall>queueState batch outcome t1 t2 st' s' ref.
                silenceTimer
                  (objects (snd (snd (flushQueueResumed ctx high_priority_trigger queueState
                                        batch outcome t1 t2 st' s'))) ref)
                  = silenceTimer (objects s' ref)))"
proof -
  define ctx where "ctx = getContextId m"
  define qm where "qm = convertToQueuedMessage toLowerCase (queueConfig s) m ctx now"
  define old where "old = (case queueStateOf s ctx of None \<Rightarrow> newQueueState | Some q \<Rightarrow> q)"
  define ref where "ref = fst (getOrCreateQueue ctx s)"
  define s1 where "s1 = snd (getOrCreateQueue ctx s)"
  define s2 where "s2 = modify ref (\<lambda>q. q\<lparr> messages := messages q @ [qm] \<rparr>) s1"
  have hi: "isHighPriority qm"
    using hp by (simp add: qm_def convertToQueuedMessage_def isHighPriorityMessage_iff)
  have e: "Map_get (queues s1) ctx = Some ref" "objects s1 ref = old"
    using getOrCreateQueue_entry [of ctx s] by (simp_all add: ref_def s1_def old_def)
  have add: "addMessage toLowerCase st m now nowCheck s =
      (case flushQueue st ctx high_priority_trigger s2 of (step, s3) \<Rightarrow> (Some step, s3))"
    using hi
    by (simp add: addMessage_def Let_def case_prod_unfold ctx_def [symmetric] qm_def [symmetric]
        ref_def [symmetric] s1_def [symmetric] s2_def [symmetric])
  have get: "Map_get (queues s2) ctx = Some ref"
    "objects s2 ref = old\<lparr> messages := messages old @ [qm] \<rparr>"
    using e by (simp_all add: s2_def modify_def)
  have "Map_get (queues (snd (addMessage toLowerCase st m now nowCheck s))) ctx = Some ref \<and>
        silenceTimer (objects (snd (addMessage toLowerCase st m now nowCheck s)) ref) = None \<and>
        (if canReply st \<and> \<not> isProcessing old
         then fst (addMessage toLowerCase st m now nowCheck s)
                = Some (Awaiting ref high_priority_trigger (messages old @ [qm]))
         else \<exists>r. fst (addMessage toLowerCase st m now nowCheck s) = Some (Returned r) \<and>
                \<not> processed r)"
    using get
    by (simp add: add flushQueue_def clearSilenceTimer_def modify_def Let_def notProcessed_def
        case_prod_unfold)
  then show ?thesis
    using hi by (auto simp: Let_def ctx_def qm_def old_def flushQueueResumed_timers)
qed

theorem addMessage_high_priority_witness:
  "fst (addMessage asciiToLowerCase fullStamina mentionMessage 7000 7001 emptyManager) =
     Some (Awaiting 0 high_priority_trigger
            [convertToQueuedMessage asciiToLowerCase defaultQueueConfig mentionMessage
               ''conv_c1'' 7000]) \<and>
   Map_get (queues (snd (addMessage asciiToLowerCase fullStamina mentionMessage 7000 7001
                           emptyManager))) ''conv_c1'' = Some 0 \<and>
   silenceTimer (objects (snd (addMessage asciiToLowerCase fullStamina mentionMessage 7000 7001
                                 emptyManager)) 0) = None"
proof -
  have h: "containsAtCI asciiToLowerCase (trim (msg_content mentionMessage))
             (botName (queueConfig emptyManager)) \<or>
           containsCI asciiToLowerCase (trim (msg_content mentionMessage))
             (botName (queueConfig emptyManager)) \<or>
           msg_type mentionMessage = CommandMessage"
    using mention_contains by (simp add: emptyManager_def)
  have c: "getContextId mentionMessage = ''conv_c1''"
    by (simp add: getContextId_def mentionMessage_def truthyStr_def)
  have q: "queueStateOf emptyManager ''conv_c1'' = None"
    by (simp add: queueStateOf_def emptyManager_def Map_get_def)
  have g: "Map_get (queues (snd (addMessage asciiToLowerCase fullStamina mentionMessage 7000 7001
                           emptyManager))) ''conv_c1'' = Some 0"
    using mention_contains canReply_fullStamina
    by (simp add: addMessage_def Let_def c getOrCreateQueue_def emptyManager_def Map_get_def
        modify_def flushQueue_def clearSilenceTimer_def convertToQueuedMessage_def
        isHighPriorityMessage_iff newQueueState_def case_prod_unfold)
  have cfg: "queueConfig emptyManager = defaultQueueConfig"
    by (simp add: emptyManager_def)
  show ?thesis
    using addMessage_high_priority [OF h, of 7000 fullStamina 7001] canReply_fullStamina g
    by (auto simp: Let_def c q cfg newQueueState_def)
qed

text \<open>
  Claim C8 as stated fails: with stamina forced to 0, the enqueue of a message that
  mentions the bot marks it high-priority and runs the flush, but the flush hands no
  batch to the processor: it returns \<open>{processed: false, reason: stamina_insufficient}\<close>
  and, the level being critical, the message is dropped from the queue.
\<close>

theorem addMessage_high_priority_counterexample:
  "isHighPriorityMessage asciiToLowerCase defaultQueueConfig mentionMessage \<and>
   fst (addMessage asciiToLowerCase exhaustedStamina mentionMessage 7000 7001 emptyManager) =
     Some (Returned (notProcessed 0 stamina_insufficient [] ''conv_c1'')) \<and>
   messages (the (queueStateOf
     (snd (addMessage asciiToLowerCase exhaustedStamina mentionMessage 7000 7001 emptyManager))
     ''conv_c1'')) = []"
proof -
  have c: "getContextId mentionMessage = ''conv_c1''"
    by (simp add: getContextId_def mentionMessage_def truthyStr_def)
  have hi: "isHighPriorityMessage asciiToLowerCase defaultQueueConfig mentionMessage"
    using mention_contains by (simp add: isHighPriorityMessage_iff)
  show ?thesis
    using not_canReply_exhausted level_exhausted hi
    by (simp add: addMessage_def Let_def c getOrCreateQueue_def emptyManager_def Map_get_def
        modify_def flushQueue_def clearSilenceTimer_def convertToQueuedMessage_def
        newQueueState_def createMessageLogs_def queueStateOf_def case_prod_unfold)
qed

section \<open>Properties of the task runner\<close>

lemma processLoop_stop: "stopRequested s \<Longrightarrow> processLoop s = finishLoop s"
  by (subst processLoop.simps) simp

lemma settle_other: "i \<noteq> j \<Longrightarrow> settle i v ps ! j = ps ! j"
  by (simp add: settle_def)

lemma shutdownPoll_finishLoop: "shutdownPoll (finishLoop s) = ShutdownReturned"
  by (simp add: shutdownPoll_def finishLoop_def)

lemma twoTasksQueue_eq:
  "twoTasksQueue =
     \<lparr> retryDelayStrategy = defaultRetryDelay, handlers = {send_message},
       queue = [\<lparr> task_id = ''t2'', task_type = send_message, payload = ''second'',
                  attempts = 0, maxAttempts = 3, createdAt = 101, promise = 1 \<rparr>],
       tq_isProcessing = True, stopRequested = False,
       promises = [Pending, Pending],
       runner = AwaitingHandler
                  \<lparr> task_id = ''t1'', task_type = send_message, payload = ''first'',
                    attempts = 1, maxAttempts = 3, createdAt = 100, promise = 0 \<rparr>,
       immediateScheduled = False \<rparr>"
  by (simp add: twoTasksQueue_def enqueue_def registerHandler_def newTaskQueue_def noOptions_def
      processQueue_def Let_def)

lemma twoTasksRetrying_eq:
  "twoTasksRetrying =
     \<lparr> retryDelayStrategy = defaultRetryDelay, handlers = {send_message},
       queue = [\<lparr> task_id = ''t2'', task_type = send_message, payload = ''second'',
                  attempts = 0, maxAttempts = 3, createdAt = 101, promise = 1 \<rparr>],
       tq_isProcessing = True, stopRequested = False,
       promises = [Pending, Pending],
       runner = AwaitingRetryDelay
                  \<lparr> task_id = ''t1'', task_type = send_message, payload = ''first'',
                    attempts = 1, maxAttempts = 3, createdAt = 100, promise = 0 \<rparr>,
       immediateScheduled = False \<rparr>"
  by (simp add: twoTasksRetrying_def twoTasksQueue_eq handlerSettled_def defaultRetryDelay_def
      Let_def)

lemma twoTasks_after_shutdown:
  "attemptEnds Succeeded (snd (shutdownStart twoTasksQueue)) =
     \<lparr> retryDelayStrategy = defaultRetryDelay, handlers = {send_message},
       queue = [\<lparr> task_id = ''t2'', task_type = send_message, payload = ''second'',
                  attempts = 0, maxAttempts = 3, createdAt = 101, promise = 1 \<rparr>],
       tq_isProcessing = False, stopRequested = True,
       promises = [Resolved, Pending],
       runner = Idle,
       immediateScheduled = False \<rparr>"
  by (simp add: twoTasksQueue_eq shutdownStart_def attemptEnds_def handlerSettled_def
      retryDelayElapsed_def processLoop_stop finishLoop_def settle_def Let_def)

lemma twoTasksRetrying_after_shutdown:
  "attemptEnds outcome (snd (shutdownStart twoTasksRetrying)) =
     \<lparr> retryDelayStrategy = defaultRetryDelay, handlers = {send_message},
       queue = [\<lparr> task_id = ''t1'', task_type = send_message, payload = ''first'',
                  attempts = 1, maxAttempts = 3, createdAt = 100, promise = 0 \<rparr>,
                \<lparr> task_id = ''t2'', task_type = send_message, payload = ''second'',
                  attempts = 0, maxAttempts = 3, createdAt = 101, promise = 1 \<rparr>],
       tq_isProcessing = False, stopRequested = True,
       promises = [Pending, Pending],
       runner = Idle,
       immediateScheduled = False \<rparr>"
  by (simp add: twoTasksRetrying_eq shutdownStart_def attemptEnds_def handlerSettled_def
      retryDelayElapsed_def processLoop_stop finishLoop_def Let_def)

lemma enqueue_after_stop:
  assumes "stopRequested s" "ty \<in> handlers s"
  shows "enqueue ty pl noOptions tid now s =
           Inr (length (promises s),
                s\<lparr> promises := promises s @ [Pending],
                   queue := queue s @
                     [\<lparr> task_id = tid, task_type = ty, payload = pl, attempts = 0,
                        maxAttempts = 3, createdAt = now, promise = length (promises s) \<rparr>] \<rparr>)"
  using assms by (simp add: enqueue_def noOptions_def processQueue_def Let_def)

text \<open>
  Claim C4 (as the code has it).  \<open>shutdown()\<close> sets the stop flag and changes nothing
  else; it returns at once when no activation of the runner is in progress, and otherwise
  once the attempt in flight has ended: the handler has settled, if the runner was
  waiting for it, and the retry delay of a failed task with attempts left has elapsed,
  whether the task failed before or after \<open>shutdown()\<close> was called.  The tasks that were
  waiting in the queue stay in the queue, after the task in flight if its failed attempt
  put it back at the front, and their futures are left as they were: they are neither
  discarded nor rejected.  When \<open>shutdown()\<close> is called during the retry delay, the
  failed task goes back to the front of the queue and no future changes.
\<close>

theorem shutdown_keeps_remaining:
  "stopRequested (snd (shutdownStart s)) \<and>
   queue (snd (shutdownStart s)) = queue s \<and>
   promises (snd (shutdownStart s)) = promises s \<and>
   (fst (shutdownStart s) = ShutdownReturned) = (\<not> tq_isProcessing s) \<and>
   (runner s = AwaitingHandler t \<or> runner s = AwaitingRetryDelay t \<longrightarrow>
      shutdownPoll (attemptEnds outcome (snd (shutdownStart s))) = ShutdownReturned \<and>
      (queue (attemptEnds outcome (snd (shutdownStart s))) = queue s \<or>
       queue (attemptEnds outcome (snd (shutdownStart s))) = t # queue s) \<and>
      (\<forall>u \<in> set (queue s). promise u \<noteq> promise t \<longrightarrow>
         promises (attemptEnds outcome (snd (shutdownStart s))) ! promise u
           = promises s ! promise u)) \<and>
   (runner s = AwaitingRetryDelay t \<longrightarrow>
      queue (attemptEnds outcome (snd (shutdownStart s))) = t # queue s \<and>
      promises (attemptEnds outcome (snd (shutdownStart s))) = promises s)"
proof -
  define s1 where "s1 = snd (shutdownStart s)"
  have s1: "s1 = s\<lparr> stopRequested := True \<rparr>"
    by (simp add: s1_def shutdownStart_def Let_def)
  have a: "stopRequested s1 \<and> queue s1 = queue s \<and> promises s1 = promises s \<and>
           (fst (shutdownStart s) = ShutdownReturned) = (\<not> tq_isProcessing s)"
    by (simp add: s1 shutdownStart_def Let_def shutdownPoll_def)
  have b: "shutdownPoll (attemptEnds outcome s1) = ShutdownReturned \<and>
      (queue (attemptEnds outcome s1) = queue s \<or> queue (attemptEnds outcome s1) = t # queue s) \<and>
      (\<forall>u \<in> set (queue s). promise u \<noteq> promise t \<longrightarrow>
         promises (attemptEnds outcome s1) ! promise u = promises s ! promise u)"
    if r: "runner s = AwaitingHandler t"
  proof (cases outcome)
    case Succeeded
    then show ?thesis using r
      by (simp add: attemptEnds_def handlerSettled_def s1 processLoop_stop finishLoop_def
          retryDelayElapsed_def shutdownPoll_def settle_other)
  next
    case (Failed e)
    then show ?thesis using r
      by (simp add: attemptEnds_def handlerSettled_def s1 processLoop_stop finishLoop_def
          retryDelayElapsed_def shutdownPoll_def settle_other Let_def)
  qed
  have c: "shutdownPoll (attemptEnds outcome s1) = ShutdownReturned \<and>
      queue (attemptEnds outcome s1) = t # queue s \<and>
      promises (attemptEnds outcome s1) = promises s"
    if r: "runner s = AwaitingRetryDelay t"
    using r
    by (simp add: attemptEnds_def handlerSettled_def s1 processLoop_stop finishLoop_def
        retryDelayElapsed_def shutdownPoll_def)
  show ?thesis using a b c by (auto simp: s1_def)
qed

theorem shutdown_keeps_remaining_witness:
  "fst (shutdownStart twoTasksQueue) = ShutdownWaiting \<and>
   shutdownPoll (attemptEnds Succeeded (snd (shutdownStart twoTasksQueue))) = ShutdownReturned \<and>
   map payload (queue (attemptEnds Succeeded (snd (shutdownStart twoTasksQueue)))) = [''second''] \<and>
   promises (attemptEnds Succeeded (snd (shutdownStart twoTasksQueue))) ! 1 = Pending \<and>
   fst (shutdownStart twoTasksRetrying) = ShutdownWaiting \<and>
   shutdownPoll (attemptEnds Succeeded (snd (shutdownStart twoTasksRetrying))) = ShutdownReturned \<and>
   map payload (queue (attemptEnds Succeeded (snd (shutdownStart twoTasksRetrying))))
     = [''first'', ''second''] \<and>
   promises (attemptEnds Succeeded (snd (shutdownStart twoTasksRetrying))) = [Pending, Pending]"
proof -
  let ?t = "\<lparr> task_id = ''t1'', task_type = send_message, payload = ''first'',
              attempts = 1, maxAttempts = 3, createdAt = 100, promise = 0 \<rparr> :: string InternalTask"
  have a: "fst (shutdownStart twoTasksQueue) = ShutdownWaiting"
    "fst (shutdownStart twoTasksRetrying) = ShutdownWaiting"
    by (simp_all add: twoTasksQueue_eq twoTasksRetrying_eq shutdownStart_def shutdownPoll_def
        Let_def)
  have r: "runner twoTasksQueue = AwaitingHandler ?t"
    "runner twoTasksRetrying = AwaitingRetryDelay ?t"
    by (simp_all add: twoTasksQueue_eq twoTasksRetrying_eq)
  have p1: "shutdownPoll (attemptEnds Succeeded (snd (shutdownStart twoTasksQueue)))
              = ShutdownReturned"
    using shutdown_keeps_remaining [of twoTasksQueue ?t Succeeded] r(1) by simp
  have p2: "shutdownPoll (attemptEnds Succeeded (snd (shutdownStart twoTasksRetrying)))
              = ShutdownReturned \<and>
            queue (attemptEnds Succeeded (snd (shutdownStart twoTasksRetrying)))
              = ?t # queue twoTasksRetrying \<and>
            promises (attemptEnds Succeeded (snd (shutdownStart twoTasksRetrying)))
              = promises twoTasksRetrying"
    using shutdown_keeps_remaining [of twoTasksRetrying ?t Succeeded] r(2) by simp
  have q: "map payload (queue twoTasksRetrying) = [''second'']"
    "promises twoTasksRetrying = [Pending, Pending]"
    by (simp_all add: twoTasksRetrying_eq)
  show ?thesis
    using a p1 p2 q by (simp add: twoTasks_after_shutdown)
qed

text \<open>
  Claim C4 as stated fails: two delivery tasks are enqueued, the first is in flight when
  \<open>shutdown()\<close> is called and then succeeds.  When \<open>shutdown()\<close> returns, the second task
  is still in the queue and its future is still pending; the specification would have
  the queue empty and that future rejected.
\<close>

theorem shutdown_discard_counterexample:
  "map payload (queue (attemptEnds Succeeded (snd (shutdownStart twoTasksQueue)))) = [''second''] \<and>
   promises (attemptEnds Succeeded (snd (shutdownStart twoTasksQueue))) = [Resolved, Pending] \<and>
   queue (spec_discardRemaining (attemptEnds Succeeded (snd (shutdownStart twoTasksQueue)))) = [] \<and>
   promises (spec_discardRemaining (attemptEnds Succeeded (snd (shutdownStart twoTasksQueue))))
     = [Resolved, Rejected ''shutdown'']"
  by (simp add: twoTasks_after_shutdown spec_discardRemaining_def settle_def)

section \<open>Properties of the LLM client\<close>

lemma trim_Nil [simp]: "trim [] = []"
  by (simp add: trim_def trimEnd_def)

lemma length_str [simp]: "length (str s) = length s"
  by (simp add: str_def)

lemma str_eq_Nil [simp]: "str s = [] \<longleftrightarrow> s = []"
  by (simp add: str_def)

lemma Nil_eq_str [simp]: "[] = str s \<longleftrightarrow> s = []"
  by (simp add: str_def)

lemma str_inject [simp]: "str a = str b \<longleftrightarrow> a = b"
  by (simp add: str_def inj_map_eq_map inj_on_def)

lemma buildResponse_fallback:
  "buildResponse raw (rawTextFallback raw) =
     (if trim raw = [] then nothingToSay else rawReply (trim raw))"
  by (simp add: buildResponse_def rawTextFallback_def emptyResult_def Let_def truthyStr_def
      rawReply_def nothingToSay_def noPayload_def)

lemma parseTextResponse_failure:
  "jp (stripFenceEnd (stripFenceStart (trim raw))) = None \<Longrightarrow>
   parseTextResponse jp raw = Some (rawTextFallback raw)"
  by (simp add: parseTextResponse_def Let_def rawTextFallback_def)

lemma operation_parse_failure:
  assumes r: "remote (length (requests c)) (currentApiKey c) p = Inr \<lparr> gc_text = Some raw \<rparr>"
    and f: "jp (stripFenceEnd (stripFenceStart (trim raw))) = None"
  shows "operation jp remote p c =
           (Returns (if trim raw = [] then nothingToSay else rawReply (trim raw)),
            c\<lparr> requests := requests c @ [(currentApiKey c, p)] \<rparr>)"
proof (cases "raw = []")
  case True
  then show ?thesis using r
    by (simp add: operation_def Let_def truthyStr_def parseTextResponse_def
        buildResponse_fallback [of "[]", simplified rawTextFallback_def, simplified])
next
  case False
  then show ?thesis using r parseTextResponse_failure [of jp raw, OF f]
    by (simp add: operation_def Let_def truthyStr_def buildResponse_fallback)
qed

lemma requests_operation:
  "requests (snd (operation jp remote p c)) = requests c @ [(currentApiKey c, p)]"
  by (simp add: operation_def Let_def split: sum.splits option.splits)

lemma operation_throws:
  "remote (length (requests c)) (currentApiKey c) p = Inl err \<Longrightarrow>
   operation jp remote p c = (Throws err, c\<lparr> requests := requests c @ [(currentApiKey c, p)] \<rparr>)"
  by (simp add: operation_def Let_def)

lemma operation_answered:
  "remote (length (requests c)) (currentApiKey c) p = Inr resp \<Longrightarrow>
   \<exists>out. operation jp remote p c = (out, c\<lparr> requests := requests c @ [(currentApiKey c, p)] \<rparr>) \<and>
         (\<forall>err. out \<noteq> Throws err)"
  by (simp add: operation_def Let_def split: option.splits)

lemma requests_switchApiKey [simp]: "requests (switchApiKey now c) = requests c"
  by (simp add: switchApiKey_def split: prod.splits option.splits)

text \<open>After an attempt that threw \<open>err\<close>, the loop goes on from the state in which
  the failure is recorded and the key possibly switched; the requests are those sent so
  far.\<close>

lemma retryLoop_after_throw:
  "operation jp remote p c = (Throws err, c1) \<Longrightarrow>
   retryLoop jp toLowerCase remote clock p (Suc left) le c =
     retryLoop jp toLowerCase remote clock p left err
       (if shouldSwitchKey toLowerCase err
        then switchApiKey (clock (MAX_RETRIES - left))
               (c1\<lparr> keyManager := recordError toLowerCase (currentApiKey c1) err
                                       (clock (MAX_RETRIES - left)) (clock (MAX_RETRIES - left))
                                       (keyManager c1) \<rparr>)
        else c1\<lparr> keyManager := recordError toLowerCase (currentApiKey c1) err
                                    (clock (MAX_RETRIES - left)) (clock (MAX_RETRIES - left))
                                    (keyManager c1) \<rparr>)"
  by (simp add: Let_def)

lemma retryLoop_throw_step:
  assumes "remote (length (requests c)) (currentApiKey c) p = Inl err"
  shows "\<exists>c3. retryLoop jp toLowerCase remote clock p (Suc left) le c =
                retryLoop jp toLowerCase remote clock p left err c3 \<and>
              requests c3 = requests c @ [(currentApiKey c, p)]"
proof -
  have o: "operation jp remote p c =
             (Throws err, c\<lparr> requests := requests c @ [(currentApiKey c, p)] \<rparr>)"
    using assms by (simp add: operation_def Let_def)
  show ?thesis
    unfolding retryLoop_after_throw [where jp = jp and remote = remote, OF o]
    by (intro exI conjI, rule refl) simp
qed

lemma retryLoop_requests:
  "\<exists>ext. requests (snd (retryLoop jp toLowerCase remote clock p left le c)) = requests c @ ext"
proof (induction left arbitrary: le c)
  case 0
  then show ?case by simp
next
  case (Suc left)
  show ?case
  proof (cases "remote (length (requests c)) (currentApiKey c) p")
    case (Inl err)
    from retryLoop_throw_step [where remote = remote and c = c and p = p, OF Inl]
    obtain c3 where c3: "retryLoop jp toLowerCase remote clock p (Suc left) le c =
        retryLoop jp toLowerCase remote clock p left err c3"
      "requests c3 = requests c @ [(currentApiKey c, p)]"
      by blast
    from Suc.IH [of err c3] obtain ext where
      "requests (snd (retryLoop jp toLowerCase remote clock p left err c3)) = requests c3 @ ext"
      by blast
    then show ?thesis using c3 by simp
  next
    case (Inr resp)
    from operation_answered [where remote = remote and c = c and p = p and jp = jp, OF Inr]
    obtain out where
      o: "operation jp remote p c = (out, c\<lparr> requests := requests c @ [(currentApiKey c, p)] \<rparr>)"
         "\<forall>err. out \<noteq> Throws err"
      by blast
    then show ?thesis by (cases out) simp_all
  qed
qed

text \<open>Whichever attempt of the loop gets a text that fails to parse, the loop returns
  at that attempt with the raw-text reply.\<close>

lemma retryLoop_parse_failure:
  assumes f: "jp (stripFenceEnd (stripFenceStart (trim raw))) = None"
  shows "length (requests c) \<le> n \<Longrightarrow>
         n < length (requests (snd (retryLoop jp toLowerCase remote clock p left le c))) \<Longrightarrow>
         remote n (fst (requests (snd (retryLoop jp toLowerCase remote clock p left le c)) ! n)) p
           = Inr \<lparr> gc_text = Some raw \<rparr> \<Longrightarrow>
         fst (retryLoop jp toLowerCase remote clock p left le c)
           = Returns (if trim raw = [] then nothingToSay else rawReply (trim raw)) \<and>
         length (requests (snd (retryLoop jp toLowerCase remote clock p left le c))) = Suc n"
proof (induction left arbitrary: le c)
  case 0
  then show ?case by simp
next
  case (Suc left)
  let ?m = "length (requests c)"
  let ?G = "retryLoop jp toLowerCase remote clock p (Suc left) le c"
  show ?case
  proof (cases "remote ?m (currentApiKey c) p")
    case (Inr resp)
    from operation_answered [where remote = remote and c = c and p = p and jp = jp, OF Inr]
    obtain out where
      o: "operation jp remote p c = (out, c\<lparr> requests := requests c @ [(currentApiKey c, p)] \<rparr>)"
         "\<forall>err. out \<noteq> Throws err"
      by blast
    have G: "?G = (out, c\<lparr> requests := requests c @ [(currentApiKey c, p)] \<rparr>)"
      using o by (cases out) simp_all
    have n: "n = ?m" using Suc.prems(1,2) unfolding G by simp
    have "remote ?m (currentApiKey c) p = Inr \<lparr> gc_text = Some raw \<rparr>"
      using Suc.prems(3) unfolding G n by simp
    from operation_parse_failure [where remote = remote and c = c and p = p and jp = jp
        and raw = raw, OF this f]
    have "out = Returns (if trim raw = [] then nothingToSay else rawReply (trim raw))"
      using o(1) by simp
    then show ?thesis unfolding G n by simp
  next
    case (Inl err)
    from retryLoop_throw_step [where remote = remote and c = c and p = p, OF Inl]
    obtain c3 where c3: "?G = retryLoop jp toLowerCase remote clock p left err c3"
      "requests c3 = requests c @ [(currentApiKey c, p)]"
      by blast
    from retryLoop_requests [of jp toLowerCase remote clock p left err c3] obtain ext where
      "requests (snd (retryLoop jp toLowerCase remote clock p left err c3)) = requests c3 @ ext"
      by blast
    then have ext: "requests (snd ?G) = (requests c @ [(currentApiKey c, p)]) @ ext"
      unfolding c3(1) c3(2) by simp
    have "n \<noteq> ?m"
    proof
      assume nm: "n = ?m"
      then have "requests (snd ?G) ! n = (currentApiKey c, p)"
        unfolding ext by (simp add: nth_append)
      then have "remote ?m (currentApiKey c) p = Inr \<lparr> gc_text = Some raw \<rparr>"
        using Suc.prems(3) unfolding nm by simp
      then show False using Inl by simp
    qed
    then have "length (requests c3) \<le> n" using Suc.prems(1) c3(2) by simp
    from Suc.IH [of c3 err, OF this] Suc.prems(2,3) show ?thesis unfolding c3(1) by simp
  qed
qed

lemma not_json_cleaned:
  "stripFenceEnd (stripFenceStart (trim (str ''not-json''))) = str ''not-json''"
  by (simp add: stripFenceEnd_def stripFenceStart_def trim_def trimEnd_def isWhiteSpace_def
      asciiToLowerCase_def asciiLowerUnit_def endsWith_def Let_def str_def)

lemma JSON_parse_not_json: "JSON_parse (str ''not-json'') = None"
  by (simp add: JSON_parse_def skipWs_def isJsonWs_def expectWord_def str_def codeUnit_def)

lemma trim_not_json: "trim (str ''not-json'') = str ''not-json''"
  by (simp add: trim_def trimEnd_def isWhiteSpace_def str_def)

lemma not_json_fails:
  "JSON_parse (stripFenceEnd (stripFenceStart (trim (str ''not-json'')))) = None"
  by (simp add: not_json_cleaned JSON_parse_not_json)

text \<open>The run of the second scenario: the first request fails with HTTP 429, the
  failure is recorded, key A stays current, and the retry is answered.\<close>

lemma failingOnce_run:
  "fst (generateResponse JSON_parse asciiToLowerCase failingOnceRemote fixedClock ''PROMPT''
          freshClient) = Returns (rawReply (str ''not-json'')) \<and>
   requests (snd (generateResponse JSON_parse asciiToLowerCase failingOnceRemote fixedClock
                    ''PROMPT'' freshClient)) = [(''A'', ''PROMPT''), (''A'', ''PROMPT'')]"
proof -
  define c1 where "c1 = freshClient\<lparr> requests := [(''A'', ''PROMPT'')] \<rparr>"
  define c3 where "c3 =
    switchApiKey (fixedClock 1)
      (c1\<lparr> keyManager := recordError asciiToLowerCase (currentApiKey c1) error429
                               (fixedClock 1) (fixedClock 1) (keyManager c1) \<rparr>)"
  have o1: "operation JSON_parse failingOnceRemote ''PROMPT'' freshClient = (Throws error429, c1)"
    by (simp add: operation_def failingOnceRemote_def freshClient_def Let_def c1_def)
  have sw: "shouldSwitchKey asciiToLowerCase error429"
    by (simp add: shouldSwitchKey_def error429_def)
  have g: "generateResponse JSON_parse asciiToLowerCase failingOnceRemote fixedClock ''PROMPT''
             freshClient =
           retryLoop JSON_parse asciiToLowerCase failingOnceRemote fixedClock ''PROMPT''
             (Suc (Suc 0)) error429 c3"
    using retryLoop_after_throw [where jp = JSON_parse and remote = failingOnceRemote
        and toLowerCase = asciiToLowerCase and clock = fixedClock and left = "Suc (Suc 0)"
        and le = None, OF o1] sw
    by (simp add: generateResponse_def MAX_RETRIES_def numeral_3_eq_3 c3_def)
  have k: "currentApiKey c3 = ''A''" "requests c3 = [(''A'', ''PROMPT'')]"
    by (simp_all add: c3_def c1_def switchApiKey_def getCurrentApiKey_def cleanExpiredBlocks_def
        cleanStatus_def keyAvailable_def recordError_def is429Error_def error429_def
        twoKeys_def freshStatus_def freshClient_def Map_get_def Let_def
        ERROR_WINDOW_MS_def MAX_ERRORS_IN_WINDOW_def fixedClock_def)
  have r: "failingOnceRemote (length (requests c3)) (currentApiKey c3) ''PROMPT''
             = Inr \<lparr> gc_text = Some (str ''not-json'') \<rparr>"
    by (simp add: k failingOnceRemote_def)
  from operation_parse_failure [where remote = failingOnceRemote and c = c3 and p = "''PROMPT''"
      and jp = JSON_parse and raw = "str ''not-json''", OF r not_json_fails]
  show ?thesis by (simp add: g k trim_not_json)
qed

text \<open>
  Claim C1 (as the code has it).  Whichever request of a \<open>generateResponse\<close> call the
  model answers with a text that fails JSON parsing (the first one, or a retry after
  attempts that threw), the client sends no reformat request: that request is the last
  one of the call.  The call returns a reply decision whose messages are the trimmed
  text as a single entry and whose thinking is the default text of \<open>generateResponse\<close>,
  not \<open>format fallback\<close>; for a blank text it returns a response without a reply.
  Here \<open>n\<close> is the number of a request sent during the call, and the key of that request
  is the one the client recorded for it.
\<close>

theorem generateResponse_parse_failure:
  assumes sent: "length (requests c) \<le> n"
      "n < length (requests (snd (generateResponse jp toLowerCase remote clock p c)))"
    and r: "remote n (fst (requests (snd (generateResponse jp toLowerCase remote clock p c)) ! n)) p
              = Inr \<lparr> gc_text = Some raw \<rparr>"
    and f: "jp (stripFenceEnd (stripFenceStart (trim raw))) = None"
  shows "fst (generateResponse jp toLowerCase remote clock p c)
           = Returns (if trim raw = [] then nothingToSay else rawReply (trim raw)) \<and>
         length (requests (snd (generateResponse jp toLowerCase remote clock p c))) = Suc n"
  using retryLoop_parse_failure [where jp = jp and raw = raw and c = c and n = n
      and toLowerCase = toLowerCase and remote = remote and clock = clock and p = p
      and left = MAX_RETRIES and le = None, OF f]
    sent r
  by (simp add: generateResponse_def)

theorem generateResponse_parse_failure_witness:
  "fst (generateResponse JSON_parse asciiToLowerCase notJsonRemote fixedClock ''PROMPT''
          freshClient) = Returns (rawReply (str ''not-json'')) \<and>
   length (requests (snd (generateResponse JSON_parse asciiToLowerCase notJsonRemote fixedClock
                            ''PROMPT'' freshClient))) = 1 \<and>
   fst (generateResponse JSON_parse asciiToLowerCase failingOnceRemote fixedClock ''PROMPT''
          freshClient) = Returns (rawReply (str ''not-json'')) \<and>
   length (requests (snd (generateResponse JSON_parse asciiToLowerCase failingOnceRemote
                            fixedClock ''PROMPT'' freshClient))) = 2"
proof -
  let ?G1 = "generateResponse JSON_parse asciiToLowerCase notJsonRemote fixedClock ''PROMPT''
               freshClient"
  let ?G2 = "generateResponse JSON_parse asciiToLowerCase failingOnceRemote fixedClock ''PROMPT''
               freshClient"
  have r0: "notJsonRemote (length (requests freshClient)) (currentApiKey freshClient) ''PROMPT''
              = Inr \<lparr> gc_text = Some (str ''not-json'') \<rparr>"
    by (simp add: notJsonRemote_def freshClient_def)
  have q1: "requests (snd ?G1) = [(''A'', ''PROMPT'')]"
    using operation_parse_failure [where remote = notJsonRemote and c = freshClient
        and p = "''PROMPT''" and jp = JSON_parse and raw = "str ''not-json''",
        OF r0 not_json_fails]
    by (simp add: generateResponse_def MAX_RETRIES_def numeral_3_eq_3)
       (simp add: freshClient_def)
  have a0: "length (requests freshClient) \<le> 0" "length (requests freshClient) \<le> 1"
    by (simp_all add: freshClient_def)
  have a1: "0 < length (requests (snd ?G1))"
    "notJsonRemote 0 (fst (requests (snd ?G1) ! 0)) ''PROMPT''
       = Inr \<lparr> gc_text = Some (str ''not-json'') \<rparr>"
    by (simp_all add: q1 notJsonRemote_def)
  have q2: "requests (snd ?G2) = [(''A'', ''PROMPT''), (''A'', ''PROMPT'')]"
    using failingOnce_run by simp
  have a2: "1 < length (requests (snd ?G2))"
    "failingOnceRemote 1 (fst (requests (snd ?G2) ! 1)) ''PROMPT''
       = Inr \<lparr> gc_text = Some (str ''not-json'') \<rparr>"
    by (simp_all add: q2 failingOnceRemote_def)
  show ?thesis
    using generateResponse_parse_failure [where jp = JSON_parse and raw = "str ''not-json''"
        and c = freshClient and n = 0 and toLowerCase = asciiToLowerCase
        and remote = notJsonRemote and clock = fixedClock and p = "''PROMPT''",
        OF a0(1) a1 not_json_fails]
      generateResponse_parse_failure [where jp = JSON_parse and raw = "str ''not-json''"
        and c = freshClient and n = 1 and toLowerCase = asciiToLowerCase
        and remote = failingOnceRemote and clock = fixedClock and p = "''PROMPT''",
        OF a0(2) a2 not_json_fails]
    by (simp add: trim_not_json)
qed

text \<open>
  Claim C1 as stated fails on its own scenario: the model returns \<open>not-json\<close> and has
  \<open>still-not-json\<close> ready for a reformat request.  The client sends one request in all,
  and the thinking of its decision is the default text, where the specification has
  \<open>format fallback\<close>.
\<close>

theorem generateResponse_no_reformat_counterexample:
  "length (requests (snd (generateResponse JSON_parse asciiToLowerCase notJsonRemote fixedClock
                            ''PROMPT'' freshClient))) = 1 \<and>
   fst (generateResponse JSON_parse asciiToLowerCase notJsonRemote fixedClock ''PROMPT''
          freshClient) = Returns (rawReply (str ''not-json'')) \<and>
   replies (rawReply (str ''not-json'')) = Some [str ''not-json''] \<and>
   thinking (rawReply (str ''not-json'')) = Some DEFAULT_THINKING \<and>
   thinking (spec_formatFallback (str ''not-json'')) = Some (str ''format fallback'') \<and>
   DEFAULT_THINKING \<noteq> str ''format fallback''"
proof -
  have r0: "notJsonRemote (length (requests freshClient)) (currentApiKey freshClient) ''PROMPT''
              = Inr \<lparr> gc_text = Some (str ''not-json'') \<rparr>"
    by (simp add: notJsonRemote_def freshClient_def)
  have g: "generateResponse JSON_parse asciiToLowerCase notJsonRemote fixedClock ''PROMPT''
             freshClient =
      (Returns (rawReply (str ''not-json'')), freshClient\<lparr> requests := [(''A'', ''PROMPT'')] \<rparr>)"
    using operation_parse_failure [where remote = notJsonRemote and c = freshClient
        and p = "''PROMPT''" and jp = JSON_parse and raw = "str ''not-json''",
        OF r0 not_json_fails]
    by (simp add: generateResponse_def MAX_RETRIES_def numeral_3_eq_3 trim_not_json)
       (simp add: freshClient_def)
  have s: "thinking (spec_formatFallback (str ''not-json'')) = Some (str ''format fallback'')"
    by (simp add: spec_formatFallback_def buildResponse_def Let_def truthyStr_def)
  have d: "DEFAULT_THINKING \<noteq> str ''format fallback''"
    by (simp add: DEFAULT_THINKING_def str_def)
  show ?thesis using s d by (simp add: g rawReply_def)
qed

section \<open>Properties of the outbound correlator\<close>

lemma sendReply_settles:
  assumes "env (length (enqueuedTasks c)) \<noteq> NeverSettles" "\<not> hung c"
  shows "enqueuedTasks (snd (sendReply env qq t pid calls c)) =
           enqueuedTasks c @ [SendMessage (sendPayload qq t pid calls)] \<and>
         \<not> hung (snd (sendReply env qq t pid calls c))"
  using assms
  by (cases "env (length (enqueuedTasks c))")
     (simp_all add: sendReply_def Let_def removePendingReply_def)

lemma sendReplies_trace:
  assumes "\<forall>i. env i \<noteq> NeverSettles" "\<not> hung c"
  shows "enqueuedTasks (sendReplies env p calls contents c) =
           enqueuedTasks c @
             map (\<lambda>r. SendMessage (sendPayload (snd p) (formatReply r) (fst p) calls)) contents \<and>
         \<not> hung (sendReplies env p calls contents c)"
  using assms(2)
proof (induction contents arbitrary: c)
  case Nil
  then show ?case by simp
next
  case (Cons r rest)
  let ?st = "sendReply env (snd p) (formatReply r) (fst p) calls c"
  have s: "enqueuedTasks (snd ?st) =
             enqueuedTasks c @ [SendMessage (sendPayload (snd p) (formatReply r) (fst p) calls)]"
          "\<not> hung (snd ?st)"
    using sendReply_settles [of env c "snd p" "formatReply r" "fst p" calls] assms(1) Cons.prems
    by auto
  show ?case
  proof (cases "fst ?st")
    case (Threw e)
    let ?c1 = "(snd ?st)\<lparr> adminErrorReports := adminErrorReports (snd ?st) + 1 \<rparr>"
    have "sendReplies env p calls (r # rest) c = sendReplies env p calls rest ?c1"
      using Threw Cons.prems by (cases ?st) simp
    moreover have "\<not> hung ?c1" using s(2) by simp
    moreover have "enqueuedTasks ?c1 = enqueuedTasks (snd ?st)" by simp
    ultimately show ?thesis using Cons.IH [of ?c1] s(1) by simp
  next
    case Completed
    have "sendReplies env p calls (r # rest) c = sendReplies env p calls rest (snd ?st)"
      using Completed Cons.prems by (cases ?st) simp
    then show ?thesis using Cons.IH [of "snd ?st"] s by simp
  next
    case Suspended
    have "sendReplies env p calls (r # rest) c = sendReplies env p calls rest (snd ?st)"
      using Suspended Cons.prems by (cases ?st) simp
    then show ?thesis using Cons.IH [of "snd ?st"] s by simp
  qed
qed

lemma enqueuedTasks_removePendingReply [simp]:
  "enqueuedTasks (removePendingReply i c) = enqueuedTasks c"
  by (simp add: removePendingReply_def)

lemma enqueuedTasks_fold_remove:
  "enqueuedTasks (fold (\<lambda>pending s. if P pending then s else removePendingReply (fst pending) s) ps c)
     = enqueuedTasks c"
  by (induction ps arbitrary: c) auto

lemma enqueuedTasks_fold_remove_all:
  "enqueuedTasks (fold (\<lambda>pending s. removePendingReply (fst pending) s) ps c) = enqueuedTasks c"
  by (induction ps arbitrary: c) auto

lemma deliveryTexts_append [simp]:
  "deliveryTexts (a @ b) = deliveryTexts a @ deliveryTexts b"
  by (simp add: deliveryTexts_def)

lemma deliveryTexts_sends:
  "deliveryTexts (map (\<lambda>r. SendMessage (sendPayload qq (formatReply r) pid calls)) rs)
     = map formatReply rs"
  by (induction rs) (simp_all add: deliveryTexts_def sendPayload_def Let_def)

lemma buildResponse_reply:
  assumes "ms \<noteq> []"
  shows "tasks (buildResponse txt \<lparr> pr_messages = Some ms, pr_thinking = th, pr_reason = rs \<rparr>)
           = Some [ReplyTask ms]"
    and "skipReply (buildResponse txt \<lparr> pr_messages = Some ms, pr_thinking = th, pr_reason = rs \<rparr>)
           = Some False"
  using assms by (simp_all add: buildResponse_def Let_def)

lemma messageId_helloQueued: "messageId helloQueued = ''m1''"
  by (simp add: helloQueued_def convertToQueuedMessage_def mentionMessage_def)

lemma pending_for_hello:
  "getPendingRepliesForMessages [''m1''] serverWithPending = [(''m1'', inboundQQ)]"
  by (simp add: getPendingRepliesForMessages_def serverWithPending_def Map_get_def)

lemma trim_samples:
  "trim (str ''one'') = str ''one''" "trim (str ''two'') = str ''two''"
  "trim (str ''hi'') = str ''hi''" "trim (str '' '') = []" "trim [12288] = []"
  by (simp_all add: trim_def trimEnd_def isWhiteSpace_def str_def)

lemma trim_replicate: "\<not> isWhiteSpace c \<Longrightarrow> trim (replicate n c) = replicate n c"
  by (cases n) (simp_all add: trim_def trimEnd_def replicate_append_same [symmetric]
      del: replicate_Suc)

lemma formatReply_long:
  "formatReply (replicate 1001 c) = replicate 997 c @ str ''...''"
  by (simp add: formatReply_def)

lemma scenario_response:
  "ms \<noteq> [] \<Longrightarrow>
   handleQueueFlushResult env
      (replyDecisionResult [helloQueued] (str ''x'') ms None None silence_trigger ''conv_c1'')
      serverWithPending =
   (let kept = filter (\<lambda>m. m \<noteq> []) (map trim ms)
    in if kept = [] then
         fold (\<lambda>pending s. removePendingReply (fst pending) s) [(''m1'', inboundQQ)] serverWithPending
       else enqueueChatTasks env [ReplyTask kept] [(''m1'', inboundQQ)]
              ((buildResponse (str ''x'')
                  \<lparr> pr_messages = Some ms, pr_thinking = None, pr_reason = None \<rparr>)
                 \<lparr> messageIds := Some [''m1''] \<rparr>) ''conv_c1'' serverWithPending)"
  by (simp add: handleQueueFlushResult_def replyDecisionResult_def processedResult_def
      buildResponse_reply normalizeChatTasks_def extractMessageIdsFromResult_def Let_def
      pending_for_hello messageId_helloQueued)

text \<open>
  Claim C9 (as the code has it).  Take a processed batch whose LLM decision is a reply with
  the strings \<open>ms\<close> (at least one), with at least one pending correlation matching the ids
  of the batch, and let every enqueued task settle (the server awaits each task before
  it enqueues the next).  Then the delivery tasks enqueued are, in the order of \<open>ms\<close>,
  one for each string that is not blank, carrying the trimmed string, cut to 997 code
  units and three dots when it is longer than 1000 code units; when no string of \<open>ms\<close>
  is blank they are exactly as many as \<open>ms\<close>.  Blank means empty after \<open>trim()\<close>, which
  strips the white space and line terminators of JavaScript, U+3000 among them.
\<close>

theorem reply_tasks_enqueued_in_order:
  assumes ms: "ms \<noteq> []"
    and pend: "getPendingRepliesForMessages (map messageId batch) c \<noteq> []"
    and settle: "\<forall>i. env i \<noteq> NeverSettles"
    and nh: "\<not> hung c"
  shows "deliveryTexts (enqueuedTasks
            (handleQueueFlushResult env (replyDecisionResult batch txt ms th rs r ctx) c))
           = deliveryTexts (enqueuedTasks c) @ map formatReply (filter (\<lambda>m. m \<noteq> []) (map trim ms)) \<and>
         ((\<forall>m \<in> set ms. trim m \<noteq> []) \<longrightarrow>
            length (deliveryTexts (enqueuedTasks
              (handleQueueFlushResult env (replyDecisionResult batch txt ms th rs r ctx) c)))
              = length (deliveryTexts (enqueuedTasks c)) + length ms)"
proof -
  define resp where "resp = (buildResponse txt \<lparr> pr_messages = Some ms, pr_thinking = th, pr_reason = rs \<rparr>)
          \<lparr> messageIds := Some (map messageId batch) \<rparr>"
  define result where "result = replyDecisionResult batch txt ms th rs r ctx"
  define kept where "kept = filter (\<lambda>m. m \<noteq> []) (map trim ms)"
  define pendings where "pendings = getPendingRepliesForMessages (map messageId batch) c"
  have res: "response result = Some resp" "processed result"
    by (simp_all add: result_def replyDecisionResult_def processedResult_def resp_def)
  have sk: "skipReply resp = Some False" "tasks resp = Some [ReplyTask ms]"
    using buildResponse_reply [OF ms] by (simp_all add: resp_def)
  have norm: "normalizeChatTasks resp = (if kept \<noteq> [] then [ReplyTask kept] else [])"
    using sk(2) by (simp add: normalizeChatTasks_def kept_def Let_def)
  have ids: "extractMessageIdsFromResult result c = map messageId batch"
    by (simp add: extractMessageIdsFromResult_def res resp_def)
  have main: "deliveryTexts (enqueuedTasks (handleQueueFlushResult env result c))
           = deliveryTexts (enqueuedTasks c) @ map formatReply kept"
  proof (cases "kept = []")
    case True
    then show ?thesis using pend
      by (simp add: handleQueueFlushResult_def res sk norm ids Let_def enqueuedTasks_fold_remove_all)
  next
    case False
    let ?p = "last pendings"
    have pne: "pendings \<noteq> []" using pend by (simp add: pendings_def)
    have tr: "enqueuedTasks (sendReplies env ?p (toolCalls resp) kept c) =
                enqueuedTasks c @
                  map (\<lambda>r. SendMessage (sendPayload (snd ?p) (formatReply r) (fst ?p) (toolCalls resp))) kept"
      using sendReplies_trace [OF settle nh] by simp
    have h: "handleQueueFlushResult env result c =
               enqueueChatTasks env [ReplyTask kept] pendings resp (res_contextId result) c"
      using False pne
      by (simp add: handleQueueFlushResult_def res sk norm ids Let_def pendings_def)
    have "enqueuedTasks (enqueueChatTasks env [ReplyTask kept] pendings resp (res_contextId result) c)
            = enqueuedTasks (sendReplies env ?p (toolCalls resp) kept c)"
      using pne nh
      by (simp add: enqueueChatTasks_def Let_def enqueuedTasks_fold_remove split: option.splits)
    then show ?thesis by (simp add: h tr deliveryTexts_sends)
  qed
  have "kept = map trim ms" if "\<forall>m \<in> set ms. trim m \<noteq> []"
    using that by (simp add: kept_def filter_id_conv)
  then show ?thesis using main by (auto simp: result_def kept_def)
qed

theorem reply_tasks_enqueued_in_order_witness:
  "deliveryTexts (enqueuedTasks
     (handleQueueFlushResult allDelivered
        (replyDecisionResult [helloQueued] (str ''x'') twoReplies None None silence_trigger
           ''conv_c1'')
        serverWithPending)) = [str ''one'', str ''two''] \<and>
   deliveryTexts (enqueuedTasks
     (handleQueueFlushResult allDelivered
        (replyDecisionResult [helloQueued] (str ''x'') wideBlankAndLong None None silence_trigger
           ''conv_c1'')
        serverWithPending)) = [replicate 997 20013 @ str ''...'']"
proof -
  have h1: "twoReplies \<noteq> []" "wideBlankAndLong \<noteq> []"
    by (simp_all add: twoReplies_def wideBlankAndLong_def)
  have h2: "getPendingRepliesForMessages (map messageId [helloQueued]) serverWithPending \<noteq> []"
    by (simp add: messageId_helloQueued pending_for_hello)
  have h3: "\<forall>i. allDelivered i \<noteq> NeverSettles" by (simp add: allDelivered_def)
  have h4: "\<not> hung serverWithPending" by (simp add: serverWithPending_def)
  have e: "enqueuedTasks serverWithPending = []" by (simp add: serverWithPending_def)
  have w: "trim (replicate 1001 20013) = replicate 1001 20013"
    by (rule trim_replicate) (simp add: isWhiteSpace_def)
  have a: "map formatReply (filter (\<lambda>m. m \<noteq> []) (map trim twoReplies)) = [str ''one'', str ''two'']"
    by (simp add: twoReplies_def trim_samples formatReply_def)
  have b: "map formatReply (filter (\<lambda>m. m \<noteq> []) (map trim wideBlankAndLong))
             = [replicate 997 20013 @ str ''...'']"
    by (simp add: wideBlankAndLong_def trim_samples w formatReply_long)
  show ?thesis
    using reply_tasks_enqueued_in_order [OF h1(1) h2 h3 h4, of "str ''x''" None None silence_trigger
        "''conv_c1''"]
      reply_tasks_enqueued_in_order [OF h1(2) h2 h3 h4, of "str ''x''" None None silence_trigger
        "''conv_c1''"]
    by (simp add: e a b deliveryTexts_def)
qed

text \<open>
  Claim C9 as stated fails in two places.  A decision with the two non-empty strings
  \<open>" "\<close> and \<open>"hi"\<close> enqueues one delivery task: blank strings are dropped.  And when the
  task runner has been stopped, as it is during shutdown before the queues are flushed,
  a decision with two strings enqueues one delivery task: its future never settles and
  the server never gets to the second.
\<close>

theorem reply_tasks_counterexample:
  "length blankAndHi = 2 \<and> [] \<notin> set blankAndHi \<and>
   deliveryTexts (enqueuedTasks
     (handleQueueFlushResult allDelivered
        (replyDecisionResult [helloQueued] (str ''x'') blankAndHi None None silence_trigger
           ''conv_c1'')
        serverWithPending)) = [str ''hi''] \<and>
   length twoReplies = 2 \<and> [] \<notin> set twoReplies \<and>
   deliveryTexts (enqueuedTasks
     (handleQueueFlushResult runnerStopped
        (replyDecisionResult [helloQueued] (str ''x'') twoReplies None None silence_trigger
           ''conv_c1'')
        serverWithPending)) = [str ''one'']"
proof -
  have a1: "handleQueueFlushResult allDelivered
        (replyDecisionResult [helloQueued] (str ''x'') blankAndHi None None silence_trigger
           ''conv_c1'')
        serverWithPending =
      enqueueChatTasks allDelivered [ReplyTask [str ''hi'']] [(''m1'', inboundQQ)]
        ((buildResponse (str ''x'')
            \<lparr> pr_messages = Some blankAndHi, pr_thinking = None, pr_reason = None \<rparr>)
           \<lparr> messageIds := Some [''m1''] \<rparr>) ''conv_c1'' serverWithPending"
  proof -
    have k: "filter (\<lambda>m. m \<noteq> []) (map trim blankAndHi) = [str ''hi'']"
      by (simp add: blankAndHi_def trim_samples)
    have n: "blankAndHi \<noteq> []" by (simp add: blankAndHi_def)
    show ?thesis using scenario_response [OF n, of allDelivered] by (simp add: k Let_def)
  qed
  have a: "deliveryTexts (enqueuedTasks
     (handleQueueFlushResult allDelivered
        (replyDecisionResult [helloQueued] (str ''x'') blankAndHi None None silence_trigger
           ''conv_c1'')
        serverWithPending)) = [str ''hi'']"
    unfolding a1
    by (simp add: enqueueChatTasks_def Let_def serverWithPending_def sendReply_def
        allDelivered_def removePendingReply_def deliveryTexts_def sendPayload_def formatReply_def)
  have b1: "handleQueueFlushResult runnerStopped
        (replyDecisionResult [helloQueued] (str ''x'') twoReplies None None silence_trigger
           ''conv_c1'')
        serverWithPending =
      enqueueChatTasks runnerStopped [ReplyTask [str ''one'', str ''two'']] [(''m1'', inboundQQ)]
        ((buildResponse (str ''x'')
            \<lparr> pr_messages = Some twoReplies, pr_thinking = None, pr_reason = None \<rparr>)
           \<lparr> messageIds := Some [''m1''] \<rparr>) ''conv_c1'' serverWithPending"
  proof -
    have k: "filter (\<lambda>m. m \<noteq> []) (map trim twoReplies) = [str ''one'', str ''two'']"
      by (simp add: twoReplies_def trim_samples)
    have n: "twoReplies \<noteq> []" by (simp add: twoReplies_def)
    show ?thesis using scenario_response [OF n, of runnerStopped] by (simp add: k Let_def)
  qed
  have b: "deliveryTexts (enqueuedTasks
     (handleQueueFlushResult runnerStopped
        (replyDecisionResult [helloQueued] (str ''x'') twoReplies None None silence_trigger
           ''conv_c1'')
        serverWithPending)) = [str ''one'']"
    unfolding b1
    by (simp add: enqueueChatTasks_def Let_def serverWithPending_def sendReply_def
        runnerStopped_def removePendingReply_def deliveryTexts_def sendPayload_def formatReply_def)
  show ?thesis using a b by (simp add: blankAndHi_def twoReplies_def)
qed

end
